theory Spec2Isabelle
  imports Complex_Main
begin

section \<open>JavaScript values used by the server\<close>

text \<open>
  A JavaScript number, as far as the server looks at one: a finite value (whole
  milliseconds throughout: \<open>Date.now()\<close>, \<open>getTime()\<close>, intervals written through
  \<open>parseInt\<close>), \<open>NaN\<close>, or one of the two infinities.
\<close>

datatype jsnum = Num int | NaN | PosInf | NegInf

text \<open>Truthiness of a number: \<open>0\<close> and \<open>NaN\<close> are falsy.\<close>

fun truthyN :: "jsnum \<Rightarrow> bool" where
  "truthyN (Num n) = (n \<noteq> 0)"
| "truthyN NaN = False"
| "truthyN PosInf = True"
| "truthyN NegInf = True"

text \<open>
  A property that may be \<open>undefined\<close> is an option. \<open>Number.isFinite(x)\<close> is false
  for \<open>undefined\<close>, \<open>NaN\<close> and the infinities.
\<close>

fun isFinite :: "jsnum option \<Rightarrow> bool" where
  "isFinite (Some (Num n)) = True"
| "isFinite _ = False"

text \<open>The binary \<open>-\<close> on numbers.\<close>

fun js_sub :: "jsnum \<Rightarrow> jsnum \<Rightarrow> jsnum" where
  "js_sub (Num a) (Num b) = Num (a - b)"
| "js_sub NaN _ = NaN"
| "js_sub _ NaN = NaN"
| "js_sub PosInf PosInf = NaN"
| "js_sub NegInf NegInf = NaN"
| "js_sub PosInf _ = PosInf"
| "js_sub NegInf _ = NegInf"
| "js_sub (Num a) PosInf = NegInf"
| "js_sub (Num a) NegInf = PosInf"

text \<open>The comparison \<open>a >= b\<close> on numbers: false as soon as one side is \<open>NaN\<close>.\<close>

fun js_ge :: "jsnum \<Rightarrow> jsnum \<Rightarrow> bool" where
  "js_ge (Num a) (Num b) = (b \<le> a)"
| "js_ge NaN _ = False"
| "js_ge _ NaN = False"
| "js_ge PosInf _ = True"
| "js_ge _ NegInf = True"
| "js_ge NegInf _ = False"
| "js_ge _ PosInf = False"

text \<open>
  \<open>v < 0\<close>, the test a sort makes on the value its comparator returned; the sort reads
  a \<open>NaN\<close> value as \<open>+0\<close>.
\<close>

fun js_neg :: "jsnum \<Rightarrow> bool" where
  "js_neg (Num n) = (n < 0)"
| "js_neg NegInf = True"
| "js_neg _ = False"

text \<open>
  A double-precision value that is not \<open>NaN\<close>: a finite one, given by the rational it
  stands for, or an infinity. The sign of zero is not kept: \<open>-0\<close> is falsy like \<open>0\<close>, and
  multiplying and rounding up keep it a zero.
\<close>

datatype double = Dbl rat | DblInf | DblNegInf

text \<open>The number of binary digits of a positive integer.\<close>

function bitLength :: "int \<Rightarrow> int" where
  "bitLength n = (if n \<le> 0 then 0 else 1 + bitLength (n div 2))"
  by pat_completeness auto
termination
  by (relation "measure nat") auto

text \<open>
  The integer part of the binary logarithm of a positive rational, and the powers of two
  with an integer exponent.
\<close>

definition ilog2 :: "rat \<Rightarrow> int" where
  "ilog2 x =
     (if 1 \<le> x then bitLength \<lfloor>x\<rfloor> - 1 else - bitLength (\<lceil>1 / x\<rceil> - 1))"

definition pow2 :: "int \<Rightarrow> rat" where
  "pow2 e = (if 0 \<le> e then 2 ^ nat e else 1 / 2 ^ nat (- e))"

text \<open>Rounding to the nearest integer, a tie going to the even one.\<close>

definition roundHalfEven :: "rat \<Rightarrow> int" where
  "roundHalfEven x =
     (let n = \<lfloor>x\<rfloor>; d = x - of_int n
      in if d < 1 / 2 then n else if 1 / 2 < d then n + 1 else if even n then n else n + 1)"

text \<open>
  The value nearest to a positive rational among those with 53 significant bits and a
  unit in the last place not below 2 to the power -1074 (gradual underflow), a tie going
  to the even one.
\<close>

definition roundTo53 :: "rat \<Rightarrow> rat" where
  "roundTo53 a =
     (let e = max (ilog2 a - 52) (- 1074)
      in of_int (roundHalfEven (a / pow2 e)) * pow2 e)"

text \<open>
  The double nearest to a rational (IEEE 754 binary64, round to nearest, ties to even):
  an infinity once the rounded magnitude reaches 2 to the power 1024. This is the value
  \<open>JSON.parse\<close> gives a number literal, and the value an arithmetic operation gives its
  exact result.
\<close>

definition toDouble :: "rat \<Rightarrow> double" where
  "toDouble x =
     (if x = 0 then Dbl 0
      else let y = roundTo53 \<bar>x\<bar>
           in if 2 ^ 1024 \<le> y then (if 0 < x then DblInf else DblNegInf)
              else Dbl (if 0 < x then y else - y))"

text \<open>Truthiness of such a value, \<open>d * 1000\<close>, and \<open>Math.ceil\<close>.\<close>

fun truthyD :: "double \<Rightarrow> bool" where
  "truthyD (Dbl x) = (x \<noteq> 0)"
| "truthyD _ = True"

fun times1000 :: "double \<Rightarrow> double" where
  "times1000 (Dbl x) = toDouble (x * 1000)"
| "times1000 DblInf = DblInf"
| "times1000 DblNegInf = DblNegInf"

fun mathCeil :: "double \<Rightarrow> jsnum" where
  "mathCeil (Dbl x) = Num \<lceil>x\<rceil>"
| "mathCeil DblInf = PosInf"
| "mathCeil DblNegInf = NegInf"

text \<open>
  Strings are lists of code units; \<open>char\<close> covers the code units U+0000 to U+00FF.
  \<open>String.prototype.trim\<close> strips white space and line terminators at both ends; in
  that range these are TAB, LF, VT, FF, CR, SPACE and NO-BREAK SPACE.
\<close>

definition isSpace :: "char \<Rightarrow> bool" where
  "isSpace c = (c \<in> {CHR 0x09, CHR 0x0A, CHR 0x0B, CHR 0x0C, CHR 0x0D, CHR 0x20, CHR 0xA0})"

definition trim :: "string \<Rightarrow> string" where
  "trim s = rev (dropWhile isSpace (rev (dropWhile isSpace s)))"

text \<open>\<open>a || b\<close> on a possibly undefined string: the empty string is falsy.\<close>

fun orElse :: "string option \<Rightarrow> string \<Rightarrow> string" where
  "orElse None d = d"
| "orElse (Some s) d = (if s = [] then d else s)"

section \<open>The platform: URL and date parsing\<close>

text \<open>
  \<open>new URL(s)\<close> and \<open>new Date(s).getTime()\<close> are built into the runtime. The server
  is modelled over any such pair: \<open>parseUrl s\<close> is \<open>None\<close> where the constructor
  throws, and \<open>parseDate s\<close> is \<open>None\<close> where the date is invalid (its time value is
  \<open>NaN\<close>).
\<close>

record url =
  protocol :: string
  hostname :: string

record platform =
  parseUrl :: "string \<Rightarrow> url option"
  parseDate :: "string \<Rightarrow> int option"

definition isValidUrl :: "platform \<Rightarrow> string \<Rightarrow> bool" where
  "isValidUrl P u =
     (case parseUrl P u of
        None \<Rightarrow> False
      | Some v \<Rightarrow> protocol v \<noteq> [] \<and> hostname v \<noteq> [])"

definition clampTitle :: "string option \<Rightarrow> nat \<Rightarrow> string" where
  "clampTitle t mx =
     (let s = trim (orElse t ''Article'')
      in if length s > mx then take mx s else s)"

definition sanitizeLink :: "platform \<Rightarrow> string option \<Rightarrow> string" where
  "sanitizeLink P l =
     (let s = trim (orElse l [])
      in if \<not> isValidUrl P s then [] else s)"

section \<open>Feed items and the selection of the latest one\<close>

record item =
  title :: "string option"
  link :: "string option"
  guid :: "string option"
  isoDate :: "string option"
  pubDate :: "string option"

definition getItemLinkOrGuid :: "item \<Rightarrow> string" where
  "getItemLinkOrGuid i = orElse (link i) (orElse (guid i) [])"

definition dateTime :: "platform \<Rightarrow> string \<Rightarrow> jsnum" where
  "dateTime P s = (case parseDate P s of None \<Rightarrow> NaN | Some t \<Rightarrow> Num t)"

definition getItemDate :: "platform \<Rightarrow> item \<Rightarrow> jsnum" where
  "getItemDate P i =
     (if orElse (isoDate i) [] \<noteq> [] then dateTime P (orElse (isoDate i) [])
      else if orElse (pubDate i) [] \<noteq> [] then dateTime P (orElse (pubDate i) [])
      else Num 0)"

text \<open>
  \<open>Array.prototype.sort\<close> with a comparator, as V8 (the engine of Node.js) sorts an
  array of fewer than 64 elements: the longest run at the front that is ascending, or
  strictly descending and then reversed, is extended to the whole array by binary
  insertion. The comparator is called as V8 calls it, and a \<open>NaN\<close> value counts as
  \<open>+0\<close>. With a consistent comparator (no \<open>NaN\<close> date among the items) the result is
  the stable sort every conforming engine gives, for any length. With an inconsistent
  one the order is the engine's own; V8 merges runs in an array of 64 elements or more,
  which is not modelled, so that with a \<open>NaN\<close> date in so long a feed the order here may
  not be V8's.
\<close>

text \<open>
  How many more elements the run takes, behind its first two: \<open>prev\<close> is the last
  element of the run so far.
\<close>

fun extendRun :: "('a \<Rightarrow> 'a \<Rightarrow> jsnum) \<Rightarrow> bool \<Rightarrow> 'a \<Rightarrow> 'a list \<Rightarrow> nat" where
  "extendRun cmp isDescending prev [] = 0"
| "extendRun cmp isDescending prev (c # cs) =
     (if js_neg (cmp c prev) = isDescending then Suc (extendRun cmp isDescending c cs) else 0)"

text \<open>\<open>CountAndMakeRun\<close>: the run, made ascending, and the elements behind it.\<close>

definition countAndMakeRun :: "('a \<Rightarrow> 'a \<Rightarrow> jsnum) \<Rightarrow> 'a list \<Rightarrow> 'a list \<times> 'a list" where
  "countAndMakeRun cmp xs =
     (case xs of
        x0 # x1 # rest \<Rightarrow>
          (let isDescending = js_neg (cmp x1 x0);
               runLength = 2 + extendRun cmp isDescending x1 rest
           in (if isDescending then rev (take runLength xs) else take runLength xs,
               drop runLength xs))
      | _ \<Rightarrow> (xs, []))"

text \<open>
  The search of \<open>BinaryInsertionSort\<close> for the place of \<open>pivot\<close> among
  \<open>xs[left..right)\<close>.
\<close>

function binarySearch :: "('a \<Rightarrow> 'a \<Rightarrow> jsnum) \<Rightarrow> 'a \<Rightarrow> 'a list \<Rightarrow> nat \<Rightarrow> nat \<Rightarrow> nat" where
  "binarySearch cmp pivot xs left right =
     (if left < right
      then (let mid = left + (right - left) div 2
            in if js_neg (cmp pivot (xs ! mid)) then binarySearch cmp pivot xs left mid
               else binarySearch cmp pivot xs (mid + 1) right)
      else left)"
  by pat_completeness auto
termination
  by (relation "measure (\<lambda>(cmp, pivot, xs, left, right). right - left)") auto

fun binaryInsertionSort :: "('a \<Rightarrow> 'a \<Rightarrow> jsnum) \<Rightarrow> 'a list \<Rightarrow> 'a list \<Rightarrow> 'a list" where
  "binaryInsertionSort cmp run [] = run"
| "binaryInsertionSort cmp run (pivot # rest) =
     (let left = binarySearch cmp pivot run 0 (length run)
      in binaryInsertionSort cmp (take left run @ pivot # drop left run) rest)"

definition sortBy :: "('a \<Rightarrow> 'a \<Rightarrow> jsnum) \<Rightarrow> 'a list \<Rightarrow> 'a list" where
  "sortBy cmp xs =
     (if length xs < 2 then xs
      else case countAndMakeRun cmp xs of (run, rest) \<Rightarrow> binaryInsertionSort cmp run rest)"

text \<open>The comparator \<open>(a, b) => b.d - a.d\<close> on the pairs \<open>{i, d}\<close>.\<close>

definition byDateDesc :: "item \<times> jsnum \<Rightarrow> item \<times> jsnum \<Rightarrow> jsnum" where
  "byDateDesc a b = js_sub (snd b) (snd a)"

definition sortedByDate :: "platform \<Rightarrow> item list \<Rightarrow> (item \<times> jsnum) list" where
  "sortedByDate P items = sortBy byDateDesc (map (\<lambda>i. (i, getItemDate P i)) items)"

text \<open>
  The item \<open>checkFlux\<close> works on: \<open>items[0]\<close>, replaced by the head of the sort when
  that head has a truthy date. Called on a non-empty list only.
\<close>

fun selectLatest :: "platform \<Rightarrow> item list \<Rightarrow> item option" where
  "selectLatest P [] = None"
| "selectLatest P (i0 # rest) =
     (case sortedByDate P (i0 # rest) of
        [] \<Rightarrow> Some i0
      | (i, d) # _ \<Rightarrow> if truthyN d then Some i else Some i0)"

section \<open>The Discord gateway\<close>

datatype verb = GET | POST

text \<open>The request body, before \<open>JSON.stringify\<close>.\<close>

datatype payload =
    ThreadPayload (thread_name: string) (auto_archive_duration: nat) (message_content: string)
  | MessagePayload (message_text: string)

text \<open>
  What \<open>fetch\<close> is called with. The three headers are the same on every request and
  are left out.
\<close>

record request =
  rmethod :: verb
  rurl :: string
  rbody :: "payload option"

text \<open>
  The fields the server reads in a JSON body: \<open>retry_after\<close> (seconds, a JSON
  number when present) of a rate-limit body; \<open>id\<close>, \<open>type\<close> and \<open>name\<close> of a
  channel.
\<close>

record jobj =
  retry_after :: "rat option"
  j_id :: "string option"
  j_type :: "int option"
  j_name :: "string option"

datatype json = JNull | JObj jobj

text \<open>
  An HTTP response: its status, its body as text, and the body as \<open>resp.json()\<close>
  gives it (\<open>None\<close> where that promise rejects).
\<close>

record http =
  status :: nat
  text_body :: string
  json_body :: "json option"

datatype reply = NetFail string | Resp http

text \<open>
  The remote side: the reply to a request, given how many requests were made before it.
\<close>

type_synonym server = "nat \<Rightarrow> request \<Rightarrow> reply"

datatype error =
    TokenMissing
  | UnsupportedChannelType "int option"
  | DiscordError verb string nat string
  | FetchFailed string
  | BodyNotJson
  | TypeError
  | FeedError string
  | SaveError string

record channel =
  ch_id :: "string option"
  ch_type :: "int option"
  ch_name :: "string option"

text \<open>
  The state the gateway works on: the channel cache, every request passed to \<open>fetch\<close>
  (oldest first) and every delay passed to \<open>setTimeout\<close> by the transport.
\<close>

record dstate =
  channelTypeCache :: "string \<rightharpoonup> channel"
  sent :: "request list"
  waits :: "jsnum list"

definition ok :: "nat \<Rightarrow> bool" where
  "ok st = (200 \<le> st \<and> st \<le> 299)"

text \<open>
  The delay before a retry, \<open>Math.ceil((body.retry_after || 1) * 1000)\<close>, in the
  double arithmetic of the runtime. \<open>retry_after\<close> is the number literal the body holds;
  \<open>resp.json()\<close> reads it as the nearest double. An unparsable body reads as \<open>{}\<close>; on
  a \<open>null\<close> body the property read throws and the \<open>catch\<close> branch waits 1000.
\<close>

definition retryMs :: "json option \<Rightarrow> jsnum" where
  "retryMs b =
     (case b of
        None \<Rightarrow> mathCeil (times1000 (Dbl 1))
      | Some JNull \<Rightarrow> Num 1000
      | Some (JObj j) \<Rightarrow>
          (case retry_after j of
             None \<Rightarrow> mathCeil (times1000 (Dbl 1))
           | Some r \<Rightarrow>
               mathCeil (times1000 (if truthyD (toDouble r) then toDouble r else Dbl 1))))"

text \<open>
  The end of \<open>discordFetch\<close>, behind the retry branch: a response that is not a
  success is thrown as an error made of the verb, the URL, the status and the body.
\<close>

definition settle :: "request \<Rightarrow> http \<Rightarrow> error + http" where
  "settle rq resp =
     (if \<not> ok (status resp)
      then Inl (DiscordError (rmethod rq) (rurl rq) (status resp) (text_body resp))
      else Inr resp)"

fun discordFetch :: "server \<Rightarrow> request \<Rightarrow> nat \<Rightarrow> dstate \<Rightarrow> (error + http) \<times> dstate" where
  "discordFetch srv rq retries st =
     (let st1 = st\<lparr>sent := sent st @ [rq]\<rparr>
      in case srv (length (sent st)) rq of
           NetFail m \<Rightarrow> (Inl (FetchFailed m), st1)
         | Resp resp \<Rightarrow>
             if status resp = 429 \<and> retries > 0
             then discordFetch srv rq (retries - 1)
                    (st1\<lparr>waits := waits st1 @ [retryMs (json_body resp)]\<rparr>)
             else (settle rq resp, st1))"

definition channelUrl :: "string \<Rightarrow> string" where
  "channelUrl channelId = ''https://discord.com/api/v10/channels/'' @ channelId"

definition getChannel :: "server \<Rightarrow> string \<Rightarrow> dstate \<Rightarrow> (error + channel) \<times> dstate" where
  "getChannel srv channelId st =
     (case channelTypeCache st channelId of
        Some cached \<Rightarrow> (Inr cached, st)
      | None \<Rightarrow>
          (case discordFetch srv \<lparr>rmethod = GET, rurl = channelUrl channelId, rbody = None\<rparr> 2 st of
             (Inl e, st1) \<Rightarrow> (Inl e, st1)
           | (Inr resp, st1) \<Rightarrow>
               (case json_body resp of
                  None \<Rightarrow> (Inl BodyNotJson, st1)
                | Some JNull \<Rightarrow> (Inl TypeError, st1)
                | Some (JObj j) \<Rightarrow>
                    (let info = \<lparr>ch_id = j_id j, ch_type = j_type j, ch_name = j_name j\<rparr>
                     in (Inr info,
                         st1\<lparr>channelTypeCache := (channelTypeCache st1)(channelId \<mapsto> info)\<rparr>)))))"

definition threadRequest :: "string \<Rightarrow> string \<Rightarrow> string \<Rightarrow> request" where
  "threadRequest channelId ttl content =
     \<lparr>rmethod = POST, rurl = channelUrl channelId @ ''/threads'',
      rbody = Some (ThreadPayload (clampTitle (Some ttl) 90) 1440
                      (trim (orElse (Some content) (orElse (Some ttl) ''Article''))))\<rparr>"

definition createForumThread ::
  "server \<Rightarrow> string \<Rightarrow> string \<Rightarrow> string \<Rightarrow> dstate \<Rightarrow> (error + json) \<times> dstate" where
  "createForumThread srv channelId ttl content st =
     (case discordFetch srv (threadRequest channelId ttl content) 2 st of
        (Inl e, st1) \<Rightarrow> (Inl e, st1)
      | (Inr resp, st1) \<Rightarrow>
          (case json_body resp of None \<Rightarrow> (Inl BodyNotJson, st1) | Some j \<Rightarrow> (Inr j, st1)))"

definition messageRequest :: "string \<Rightarrow> string \<Rightarrow> request" where
  "messageRequest channelId content =
     \<lparr>rmethod = POST, rurl = channelUrl channelId @ ''/messages'',
      rbody = Some (MessagePayload (trim (orElse (Some content) [])))\<rparr>"

definition postTextMessage ::
  "server \<Rightarrow> string \<Rightarrow> string \<Rightarrow> dstate \<Rightarrow> (error + json) \<times> dstate" where
  "postTextMessage srv channelId content st =
     (case discordFetch srv (messageRequest channelId content) 2 st of
        (Inl e, st1) \<Rightarrow> (Inl e, st1)
      | (Inr resp, st1) \<Rightarrow>
          (case json_body resp of None \<Rightarrow> (Inl BodyNotJson, st1) | Some j \<Rightarrow> (Inr j, st1)))"

text \<open>The message text: the title, and the link on a line of its own when there is one.\<close>

definition messageText :: "platform \<Rightarrow> string option \<Rightarrow> string option \<Rightarrow> string" where
  "messageText P t l =
     (let safeTitle = clampTitle t 100; safeLink = sanitizeLink P l
      in if safeLink \<noteq> [] then safeTitle @ [CHR 0x0A] @ safeLink else safeTitle)"

definition sendToDiscord ::
  "platform \<Rightarrow> string option \<Rightarrow> server \<Rightarrow> string \<Rightarrow> string option \<Rightarrow> string option \<Rightarrow> dstate
     \<Rightarrow> (error + unit) \<times> dstate" where
  "sendToDiscord P token srv channelId t l st =
     (if orElse token [] = [] then (Inl TokenMissing, st)
      else case getChannel srv channelId st of
        (Inl e, st1) \<Rightarrow> (Inl e, st1)
      | (Inr ch, st1) \<Rightarrow>
          (let safeTitle = clampTitle t 100; content = messageText P t l
           in if ch_type ch = Some 15
              then (case createForumThread srv channelId safeTitle content st1 of
                      (Inl e, st2) \<Rightarrow> (Inl e, st2) | (Inr _, st2) \<Rightarrow> (Inr (), st2))
              else if ch_type ch = Some 0
              then (case postTextMessage srv channelId content st1 of
                      (Inl e, st2) \<Rightarrow> (Inl e, st2) | (Inr _, st2) \<Rightarrow> (Inr (), st2))
              else (Inl (UnsupportedChannelType (ch_type ch)), st1)))"

section \<open>Subscriptions and the per-feed check\<close>

text \<open>
  A subscription object as the server handles it. The schema declares \<open>rssUrl\<close>,
  \<open>discordTarget\<close>, \<open>interval\<close>, \<open>lastItem\<close> and \<open>active\<close>. \<open>lastPubDate\<close> and
  \<open>lastCheck\<close> (\<open>_lastCheck\<close> in the source) are properties the server puts on the
  object in memory: \<open>checkFlux\<close> writes the first, the tick writes the second, with
  \<open>Date.now()\<close>. On an object a query has just handed over both are \<open>undefined\<close>.
\<close>

record flux =
  rssUrl :: string
  discordTarget :: string
  interval :: "jsnum option"
  lastItem :: "string option"
  active :: bool
  lastPubDate :: "jsnum option"
  lastCheck :: "int option"

text \<open>
  Mongoose keeps the paths the schema declares and no other: the document \<open>save\<close>
  writes, and the object a query makes of a stored document, have neither
  \<open>lastPubDate\<close> nor \<open>_lastCheck\<close>.
\<close>

definition schemaOnly :: "flux \<Rightarrow> flux" where
  "schemaOnly d = d\<lparr>lastPubDate := None, lastCheck := None\<rparr>"

record feed =
  items :: "item list option"

text \<open>\<open>Array.isArray(feed.items) ? feed.items : []\<close>.\<close>

definition feedItems :: "feed \<Rightarrow> item list" where
  "feedItems fd = (case items fd of Some xs \<Rightarrow> xs | None \<Rightarrow> [])"

text \<open>
  What surrounds one check: the bot token, the outcome of \<open>parseRssWithTimeout\<close> for a
  URL (a rejection, the timeout included, is an error), the Discord side, and whether
  \<open>flux.save()\<close> rejects (with which message).
\<close>

record env =
  DISCORD_TOKEN :: "string option"
  parseRssWithTimeout :: "string \<Rightarrow> error + feed"
  discord :: server
  save :: "flux \<Rightarrow> string option"

text \<open>The return point a check leaves through; \<open>Caught\<close> is the \<open>catch\<close> block.\<close>

datatype outcome = InvalidUrl | NoItems | NoLink | NoNovelty | Delivered | Caught error

fun dateGate :: "jsnum option \<Rightarrow> jsnum \<Rightarrow> bool" where
  "dateGate None d = False"
| "dateGate (Some l) d = (truthyN l \<and> truthyN d \<and> js_ge l d)"

text \<open>
  The \<open>try\<close> block of \<open>checkFlux\<close>: the error thrown or the return point, the flux
  object, the gateway state, and the document written to the store when \<open>save\<close> went
  through.
\<close>

definition checkFluxTry ::
  "platform \<Rightarrow> env \<Rightarrow> flux \<Rightarrow> dstate \<Rightarrow> (error + outcome) \<times> flux \<times> dstate \<times> flux option" where
  "checkFluxTry P E f st =
     (if \<not> isValidUrl P (rssUrl f) then (Inr InvalidUrl, f, st, None)
      else case parseRssWithTimeout E (rssUrl f) of
        Inl e \<Rightarrow> (Inl e, f, st, None)
      | Inr fd \<Rightarrow>
          (case selectLatest P (feedItems fd) of
             None \<Rightarrow> (Inr NoItems, f, st, None)
           | Some latest \<Rightarrow>
               (let latestLink = sanitizeLink P (Some (getItemLinkOrGuid latest));
                    latestDate = getItemDate P latest
                in if latestLink = [] then (Inr NoLink, f, st, None)
                   else if lastItem f = Some latestLink \<or> dateGate (lastPubDate f) latestDate
                   then (Inr NoNovelty, f, st, None)
                   else case sendToDiscord P (DISCORD_TOKEN E) (discord E) (discordTarget f)
                               (title latest) (Some latestLink) st of
                     (Inl e, st1) \<Rightarrow> (Inl e, f, st1, None)
                   | (Inr _, st1) \<Rightarrow>
                       (let f1 = f\<lparr>lastItem := Some latestLink\<rparr>;
                            f2 = (if truthyN latestDate then f1\<lparr>lastPubDate := Some latestDate\<rparr>
                                  else f1)
                        in case save E f2 of
                             Some m \<Rightarrow> (Inl (SaveError m), f2, st1, None)
                           | None \<Rightarrow> (Inr Delivered, f2, st1, Some (schemaOnly f2))))))"

record checked =
  flux_after :: flux
  dstate_after :: dstate
  stored :: "flux option"
  outcome :: outcome

definition checkFlux :: "platform \<Rightarrow> env \<Rightarrow> flux \<Rightarrow> dstate \<Rightarrow> checked" where
  "checkFlux P E f st =
     (case checkFluxTry P E f st of
        (Inl e, f', st', w) \<Rightarrow>
          \<lparr>flux_after = f', dstate_after = st', stored = w, outcome = Caught e\<rparr>
      | (Inr oc, f', st', w) \<Rightarrow>
          \<lparr>flux_after = f', dstate_after = st', stored = w, outcome = oc\<rparr>)"

section \<open>The scheduler tick\<close>

definition effectiveInterval :: "flux \<Rightarrow> jsnum" where
  "effectiveInterval f =
     (if isFinite (interval f) then (case interval f of Some x \<Rightarrow> x | None \<Rightarrow> Num 60000)
      else Num 60000)"

text \<open>The test \<open>!flux._lastCheck || now - flux._lastCheck >= interval\<close>.\<close>

definition due :: "int \<Rightarrow> flux \<Rightarrow> bool" where
  "due now f =
     (case lastCheck f of
        None \<Rightarrow> True
      | Some t \<Rightarrow> \<not> truthyN (Num t) \<or> js_ge (js_sub (Num now) (Num t)) (effectiveInterval f))"

text \<open>
  The store is the list of the stored documents; the place of a document in the list
  stands for its \<open>_id\<close>. \<open>Flux.findActive()\<close> hands over, for every active document,
  an object made of it.
\<close>

definition findActive :: "flux list \<Rightarrow> (nat \<times> flux) list" where
  "findActive db =
     map (\<lambda>(i, d). (i, schemaOnly d)) (filter (\<lambda>(i, d). active d) (enumerate 0 db))"

text \<open>The \<open>for\<close> loop of the tick: the fluxes whose check is started, stamped with \<open>now\<close>.\<close>

fun toRun :: "int \<Rightarrow> (nat \<times> flux) list \<Rightarrow> (nat \<times> flux) list" where
  "toRun now [] = []"
| "toRun now ((i, f) # fs) =
     (if due now f then (i, f\<lparr>lastCheck := Some now\<rparr>) # toRun now fs else toRun now fs)"

text \<open>
  The started checks, settled one after the other over the shared gateway state (one of
  the interleavings the event loop allows).
\<close>

fun runAll ::
  "platform \<Rightarrow> env \<Rightarrow> (nat \<times> flux) list \<Rightarrow> dstate \<Rightarrow> (nat \<times> checked) list \<times> dstate" where
  "runAll P E [] st = ([], st)"
| "runAll P E ((i, f) # fs) st =
     (let r = checkFlux P E f st
      in case runAll P E fs (dstate_after r) of (rs, st') \<Rightarrow> ((i, r) # rs, st'))"

text \<open>The store once the documents the checks saved are written.\<close>

fun writeBack :: "(nat \<times> checked) list \<Rightarrow> flux list \<Rightarrow> flux list" where
  "writeBack [] db = db"
| "writeBack ((i, r) # rs) db =
     writeBack rs (case stored r of Some w \<Rightarrow> db[i := w] | None \<Rightarrow> db)"

text \<open>
  One tick over the store; \<open>rejected\<close> is the error \<open>Flux.findActive()\<close> rejects with,
  when it does. The result: the error logged as \<open>Cron error\<close> if any, the settled
  checks, the store and the gateway state after the tick.
\<close>

definition cronTick ::
  "platform \<Rightarrow> env \<Rightarrow> int \<Rightarrow> error option \<Rightarrow> flux list \<Rightarrow> dstate
     \<Rightarrow> error option \<times> (nat \<times> checked) list \<times> flux list \<times> dstate" where
  "cronTick P E now rejected db st =
     (case rejected of
        Some e \<Rightarrow> (Some e, [], db, st)
      | None \<Rightarrow>
          (case runAll P E (toRun now (findActive db)) st of
             (rs, st') \<Rightarrow> (None, rs, writeBack rs db, st')))"

section \<open>Toggling a subscription\<close>

text \<open>
  \<open>Flux.toggleActive\<close> over the store as a list of documents: the first document with
  that \<open>rssUrl\<close> is the one \<open>findOne\<close> gives; \<open>sv\<close> tells whether \<open>save\<close> rejects.
\<close>

fun toggleActive ::
  "(flux \<Rightarrow> string option) \<Rightarrow> string \<Rightarrow> flux list \<Rightarrow> (error + flux option) \<times> flux list" where
  "toggleActive sv u [] = (Inr None, [])"
| "toggleActive sv u (f # fs) =
     (if rssUrl f = u
      then (let f' = f\<lparr>active := \<not> active f\<rparr>
            in case sv f' of
                 Some m \<Rightarrow> (Inl (SaveError m), f # fs)
               | None \<Rightarrow> (Inr (Some f'), f' # fs))
      else (case toggleActive sv u fs of (r, fs') \<Rightarrow> (r, f # fs')))"

record toggle_request =
  apiKeyHeader :: "string option"
  body_rssUrl :: "string option"

datatype reply_body = Text string | ActiveJson bool | ErrorMessage error

record http_reply =
  code :: nat
  reply_body :: reply_body

text \<open>\<open>requireApiKey\<close>: true where the middleware calls \<open>next()\<close>.\<close>

definition requireApiKey :: "string option \<Rightarrow> string option \<Rightarrow> bool" where
  "requireApiKey API_KEY key =
     (if orElse API_KEY [] = [] then True
      else \<not> (orElse key [] = [] \<or> key \<noteq> API_KEY))"

definition toggleRoute ::
  "platform \<Rightarrow> string option \<Rightarrow> (flux \<Rightarrow> string option) \<Rightarrow> toggle_request \<Rightarrow> flux list
     \<Rightarrow> http_reply \<times> flux list" where
  "toggleRoute P API_KEY sv rq db =
     (if \<not> requireApiKey API_KEY (apiKeyHeader rq)
      then (\<lparr>code = 401, reply_body = Text ''API key invalide''\<rparr>, db)
      else if orElse (body_rssUrl rq) [] = [] \<or> \<not> isValidUrl P (orElse (body_rssUrl rq) [])
      then (\<lparr>code = 400, reply_body = Text ''rssUrl invalide''\<rparr>, db)
      else case toggleActive sv (orElse (body_rssUrl rq) []) db of
             (Inl e, db') \<Rightarrow> (\<lparr>code = 500, reply_body = ErrorMessage e\<rparr>, db')
           | (Inr None, db') \<Rightarrow> (\<lparr>code = 404, reply_body = Text ''Flux introuvable''\<rparr>, db')
           | (Inr (Some f), db') \<Rightarrow> (\<lparr>code = 200, reply_body = ActiveJson (active f)\<rparr>, db'))"

section \<open>A passage of the specification, as worded\<close>

text \<open>
  The delay as the specification words it: the retry delay the server names (in the
  arithmetic of the runtime), 1000 ms when the body names none or cannot be parsed.
\<close>

definition specRetryDelay :: "json option \<Rightarrow> jsnum" where
  "specRetryDelay b =
     (case b of
        Some (JObj j) \<Rightarrow>
          (case retry_after j of
             Some r \<Rightarrow> mathCeil (times1000 (toDouble r))
           | None \<Rightarrow> Num 1000)
      | _ \<Rightarrow> Num 1000)"

section \<open>Concrete runs\<close>

text \<open>
  A platform for the concrete runs below: it knows five URLs and two dates, with the
  values the runtime gives for them, and rejects every other string.
\<close>

definition demoPlatform :: platform where
  "demoPlatform =
     \<lparr>parseUrl = (\<lambda>s. if s \<in> {''https://blog.example/feed.xml'', ''https://blog.example/a'',
                                ''https://blog.example/b'', ''https://blog.example/c'',
                                ''https://blog.example/news.xml''}
                        then Some \<lparr>protocol = ''https:'', hostname = ''blog.example''\<rparr>
                        else None),
      parseDate = (\<lambda>s. if s = ''2024-01-01T00:00:00.000Z'' then Some 1704067200000
                         else if s = ''2024-01-02T00:00:00.000Z'' then Some 1704153600000
                         else None)\<rparr>"

definition itemA :: item where
  "itemA = \<lparr>title = Some ''First post'', link = Some ''https://blog.example/a'', guid = None,
            isoDate = Some ''2024-01-01T00:00:00.000Z'', pubDate = None\<rparr>"

definition itemB :: item where
  "itemB = \<lparr>title = Some ''Second post'', link = Some ''https://blog.example/b'', guid = None,
            isoDate = Some ''2024-01-02T00:00:00.000Z'', pubDate = None\<rparr>"

definition emptyState :: dstate where
  "emptyState = \<lparr>channelTypeCache = Map.empty, sent = [], waits = []\<rparr>"

definition textChannel :: channel where
  "textChannel = \<lparr>ch_id = Some ''1234567890123456'', ch_type = Some 0, ch_name = Some ''news''\<rparr>"

definition cachedState :: dstate where
  "cachedState = \<lparr>channelTypeCache = [''1234567890123456'' \<mapsto> textChannel], sent = [], waits = []\<rparr>"

definition okHttp :: http where
  "okHttp = \<lparr>status = 200, text_body = ''{}'',
             json_body = Some (JObj \<lparr>retry_after = None, j_id = None, j_type = None,
                                      j_name = None\<rparr>)\<rparr>"

definition okReply :: reply where
  "okReply = Resp okHttp"

definition demoEnv :: env where
  "demoEnv =
     \<lparr>DISCORD_TOKEN = Some ''token'',
      parseRssWithTimeout = (\<lambda>u. Inr \<lparr>items = Some [itemA, itemB]\<rparr>),
      discord = (\<lambda>n rq. okReply),
      save = (\<lambda>f. None)\<rparr>"

definition freshFlux :: flux where
  "freshFlux =
     \<lparr>rssUrl = ''https://blog.example/feed.xml'', discordTarget = ''1234567890123456'',
      interval = Some (Num 300000), lastItem = None, active = True, lastPubDate = None,
      lastCheck = None\<rparr>"

definition forumChannelJson :: json where
  "forumChannelJson = JObj \<lparr>retry_after = None, j_id = Some ''1234567890123456'',
                             j_type = Some 15, j_name = Some ''articles''\<rparr>"

text \<open>A JSON string literal, for the bodies as text.\<close>

definition dq :: "string \<Rightarrow> string" where
  "dq s = CHR 0x22 # s @ [CHR 0x22]"

definition forumHttp :: http where
  "forumHttp =
     \<lparr>status = 200,
      text_body = ''{'' @ dq ''id'' @ '':'' @ dq ''1234567890123456'' @ '','' @ dq ''type''
                    @ '':15,'' @ dq ''name'' @ '':'' @ dq ''articles'' @ ''}'',
      json_body = Some forumChannelJson\<rparr>"

definition forumServer :: server where
  "forumServer n rq = (if rmethod rq = GET then Resp forumHttp else okReply)"

definition forumChannel :: channel where
  "forumChannel = \<lparr>ch_id = Some ''1234567890123456'', ch_type = Some 15, ch_name = Some ''articles''\<rparr>"

definition forumState :: dstate where
  "forumState =
     \<lparr>channelTypeCache = [''1234567890123456'' \<mapsto> forumChannel],
      sent = [\<lparr>rmethod = GET, rurl = channelUrl ''1234567890123456'', rbody = None\<rparr>],
      waits = []\<rparr>"

definition pingRequest :: request where
  "pingRequest = \<lparr>rmethod = GET, rurl = channelUrl ''1234567890123456'', rbody = None\<rparr>"

definition zeroDelayReply :: http where
  "zeroDelayReply =
     \<lparr>status = 429, text_body = ''{'' @ dq ''retry_after'' @ '':0}'',
      json_body = Some (JObj \<lparr>retry_after = Some 0, j_id = None, j_type = None, j_name = None\<rparr>)\<rparr>"

definition zeroDelayServer :: server where
  "zeroDelayServer n rq = (if n = 0 then Resp zeroDelayReply else okReply)"

definition busyReply :: http where
  "busyReply = \<lparr>status = 429, text_body = ''busy'', json_body = None\<rparr>"

definition itemUndated :: item where
  "itemUndated = \<lparr>title = Some ''Undated post'', link = Some ''https://blog.example/a'',
                  guid = None, isoDate = None, pubDate = None\<rparr>"

definition itemBadLink :: item where
  "itemBadLink = \<lparr>title = Some ''Broken'', link = Some ''not a url'',
                  guid = Some ''https://blog.example/a'', isoDate = None, pubDate = None\<rparr>"

definition badLinkEnv :: env where
  "badLinkEnv = demoEnv\<lparr>parseRssWithTimeout := (\<lambda>u. Inr \<lparr>items = Some [itemBadLink]\<rparr>)\<rparr>"

definition olderEnv :: env where
  "olderEnv = demoEnv\<lparr>parseRssWithTimeout := (\<lambda>u. Inr \<lparr>items = Some [itemA]\<rparr>)\<rparr>"

definition deliveredState :: dstate where
  "deliveredState =
     cachedState\<lparr>sent :=
       [\<lparr>rmethod = POST, rurl = ''https://discord.com/api/v10/channels/1234567890123456/messages'',
         rbody = Some (MessagePayload (''Second post'' @ [CHR 0x0A] @ ''https://blog.example/b''))\<rparr>]\<rparr>"


definition otherFlux :: flux where
  "otherFlux = freshFlux\<lparr>discordTarget := ''9999999999999999''\<rparr>"

definition refusedReply :: http where
  "refusedReply = \<lparr>status = 403, text_body = ''Missing Access'', json_body = None\<rparr>"

definition refusingEnv :: env where
  "refusingEnv = demoEnv\<lparr>discord := (\<lambda>n rq. if rurl rq = channelUrl ''9999999999999999''
                                               then Resp refusedReply else okReply)\<rparr>"

definition refusedError :: error where
  "refusedError = DiscordError GET (channelUrl ''9999999999999999'') 403 ''Missing Access''"

definition refusedState :: dstate where
  "refusedState = cachedState\<lparr>sent :=
     [\<lparr>rmethod = GET, rurl = channelUrl ''9999999999999999'', rbody = None\<rparr>]\<rparr>"

definition itemGarbled :: item where
  "itemGarbled = \<lparr>title = Some ''Garbled date'', link = Some ''https://blog.example/a'',
                  guid = None, isoDate = None, pubDate = Some ''not a date''\<rparr>"

definition pausedFlux :: flux where
  "pausedFlux = otherFlux\<lparr>rssUrl := ''https://blog.example/a'', active := False\<rparr>"

definition toggleFeed :: toggle_request where
  "toggleFeed = \<lparr>apiKeyHeader = Some ''secret'', body_rssUrl = Some ''https://blog.example/feed.xml''\<rparr>"

definition toggleUnknown :: toggle_request where
  "toggleUnknown = \<lparr>apiKeyHeader = Some ''secret'', body_rssUrl = Some ''https://blog.example/b''\<rparr>"

definition decimalReply :: http where
  "decimalReply =
     \<lparr>status = 429, text_body = ''{'' @ dq ''retry_after'' @ '':2.007}'',
      json_body = Some (JObj \<lparr>retry_after = Some (2007 / 1000), j_id = None, j_type = None,
                               j_name = None\<rparr>)\<rparr>"

definition busyServer :: server where
  "busyServer n rq = (if n = 0 then Resp decimalReply else Resp busyReply)"

definition longTitle :: string where
  "longTitle = replicate 120 (CHR ''x'')"

definition voiceChannelJson :: json where
  "voiceChannelJson = JObj \<lparr>retry_after = None, j_id = Some ''1234567890123456'',
                             j_type = Some 2, j_name = Some ''lounge''\<rparr>"

definition voiceChannel :: channel where
  "voiceChannel = \<lparr>ch_id = Some ''1234567890123456'', ch_type = Some 2, ch_name = Some ''lounge''\<rparr>"

definition voiceServer :: server where
  "voiceServer n rq =
     Resp \<lparr>status = 200, text_body = ''{}'', json_body = Some voiceChannelJson\<rparr>"

definition voiceState :: dstate where
  "voiceState =
     \<lparr>channelTypeCache = [''1234567890123456'' \<mapsto> voiceChannel],
      sent = [\<lparr>rmethod = GET, rurl = channelUrl ''1234567890123456'', rbody = None\<rparr>],
      waits = []\<rparr>"

definition itemTagged :: item where
  "itemTagged = \<lparr>title = Some ''Second post'', link = Some ''https://blog.example/b'',
                 guid = Some ''tag:blog.example,2024:b'',
                 isoDate = Some ''2024-01-02T00:00:00.000Z'', pubDate = None\<rparr>"

definition itemGuidOnly :: item where
  "itemGuidOnly = \<lparr>title = None, link = None, guid = Some ''https://blog.example/c'',
                   isoDate = None, pubDate = None\<rparr>"

definition newsFlux :: flux where
  "newsFlux = freshFlux\<lparr>rssUrl := ''https://blog.example/news.xml''\<rparr>"

definition twoFeedsEnv :: env where
  "twoFeedsEnv =
     demoEnv\<lparr>parseRssWithTimeout :=
       (\<lambda>u. if u = ''https://blog.example/news.xml''
            then Inr \<lparr>items = Some [itemGuidOnly, itemUndated]\<rparr>
            else Inr \<lparr>items = Some [itemA, itemTagged, itemUndated]\<rparr>)\<rparr>"

definition flakyEnv :: env where
  "flakyEnv =
     refusingEnv\<lparr>parseRssWithTimeout :=
       (\<lambda>u. if u = ''https://blog.example/news.xml'' then Inl (FeedError ''Timeout RSS'')
            else Inr \<lparr>items = Some [itemA, itemB]\<rparr>)\<rparr>"

section \<open>The retrying transport\<close>

declare discordFetch.simps [simp del]

declare bitLength.simps [simp del]

declare binarySearch.simps [simp del]

lemma discordFetch_NetFail:
  "srv (length (sent st)) rq = NetFail m \<Longrightarrow>
   discordFetch srv rq n st = (Inl (FetchFailed m), st\<lparr>sent := sent st @ [rq]\<rparr>)"
  by (subst discordFetch.simps) (simp add: Let_def)

lemma discordFetch_retry:
  "srv (length (sent st)) rq = Resp h \<Longrightarrow> status h = 429 \<Longrightarrow>
   discordFetch srv rq (Suc n) st =
     discordFetch srv rq n
       (st\<lparr>sent := sent st @ [rq], waits := waits st @ [retryMs (json_body h)]\<rparr>)"
  by (subst discordFetch.simps) (simp add: Let_def)

lemma discordFetch_settle:
  "srv (length (sent st)) rq = Resp h \<Longrightarrow> status h \<noteq> 429 \<or> n = 0 \<Longrightarrow>
   discordFetch srv rq n st = (settle rq h, st\<lparr>sent := sent st @ [rq]\<rparr>)"
  by (subst discordFetch.simps) (auto simp add: Let_def)

text \<open>
  Whatever the remote side answers, the transport sends the same request between once
  and \<open>retries + 1\<close> times and never touches the channel cache.
\<close>

lemma discordFetch_trace:
  "discordFetch srv rq n st = (res, st') \<Longrightarrow>
     \<exists>k. 1 \<le> k \<and> k \<le> n + 1 \<and> sent st' = sent st @ replicate k rq
       \<and> channelTypeCache st' = channelTypeCache st"
proof (induction n arbitrary: st res st')
  case 0
  then show ?case
    by (cases "srv (length (sent st)) rq")
       (auto simp: discordFetch_NetFail discordFetch_settle intro!: exI[of _ 1])
next
  case (Suc n)
  show ?case
  proof (cases "srv (length (sent st)) rq")
    case (NetFail m)
    with Suc.prems show ?thesis by (auto simp: discordFetch_NetFail intro!: exI[of _ 1])
  next
    case (Resp h)
    show ?thesis
    proof (cases "status h = 429")
      case True
      let ?st1 = "st\<lparr>sent := sent st @ [rq], waits := waits st @ [retryMs (json_body h)]\<rparr>"
      from Suc.prems Resp True have "discordFetch srv rq n ?st1 = (res, st')"
        by (simp add: discordFetch_retry)
      from Suc.IH[OF this] obtain k where k: "1 \<le> k" "k \<le> n + 1"
        "sent st' = sent ?st1 @ replicate k rq" "channelTypeCache st' = channelTypeCache ?st1"
        by blast
      then have "sent st' = sent st @ replicate (Suc k) rq"
        by (simp add: replicate_app_Cons_same)
      with k show ?thesis by (intro exI[of _ "Suc k"]) simp
    next
      case False
      with Suc.prems Resp show ?thesis by (auto simp: discordFetch_settle intro!: exI[of _ 1])
    qed
  qed
qed

lemma getChannel_trace:
  assumes "getChannel srv cid st = (res, st1)"
  shows "\<exists>j. j \<le> 3 \<and> sent st1 =
            sent st @ replicate j \<lparr>rmethod = GET, rurl = channelUrl cid, rbody = None\<rparr>"
proof (cases "channelTypeCache st cid")
  case (Some c)
  with assms have "st1 = st" by (simp add: getChannel_def)
  then show ?thesis by (intro exI[of _ 0]) simp
next
  case None
  let ?rq = "\<lparr>rmethod = GET, rurl = channelUrl cid, rbody = None\<rparr>"
  obtain r s where f: "discordFetch srv ?rq 2 st = (r, s)" by (cases "discordFetch srv ?rq 2 st")
  from discordFetch_trace[OF f] obtain k where k: "k \<le> 3" "sent s = sent st @ replicate k ?rq"
    by auto
  from assms None f have "sent st1 = sent s"
    by (auto simp: getChannel_def Let_def split: sum.splits option.splits json.splits)
  with k show ?thesis by auto
qed
section \<open>Dispatch on the channel type\<close>

lemma length_clampTitle: "length (clampTitle t mx) \<le> mx"
  by (simp add: clampTitle_def Let_def)

lemma createForumThread_trace:
  "createForumThread srv cid ttl c st = (res, st') \<Longrightarrow>
   \<exists>k. 1 \<le> k \<and> k \<le> 3 \<and> sent st' = sent st @ replicate k (threadRequest cid ttl c)"
proof -
  assume a: "createForumThread srv cid ttl c st = (res, st')"
  obtain r s where f: "discordFetch srv (threadRequest cid ttl c) 2 st = (r, s)"
    by (cases "discordFetch srv (threadRequest cid ttl c) 2 st")
  from a f have "st' = s"
    by (auto simp: createForumThread_def split: sum.splits option.splits)
  with discordFetch_trace[OF f] show ?thesis by auto
qed

lemma postTextMessage_trace:
  "postTextMessage srv cid c st = (res, st') \<Longrightarrow>
   \<exists>k. 1 \<le> k \<and> k \<le> 3 \<and> sent st' = sent st @ replicate k (messageRequest cid c)"
proof -
  assume a: "postTextMessage srv cid c st = (res, st')"
  obtain r s where f: "discordFetch srv (messageRequest cid c) 2 st = (r, s)"
    by (cases "discordFetch srv (messageRequest cid c) 2 st")
  from a f have "st' = s"
    by (auto simp: postTextMessage_def split: sum.splits option.splits)
  with discordFetch_trace[OF f] show ?thesis by auto
qed

lemma stripR_prefix: "\<exists>zs. x = rev (dropWhile p (rev x)) @ zs"
proof -
  have "rev (dropWhile p (rev x)) @ rev (takeWhile p (rev x)) =
          rev (takeWhile p (rev x) @ dropWhile p (rev x))"
    by (simp only: rev_append)
  also have "\<dots> = x" by simp
  finally show ?thesis by metis
qed

lemma trim_no_leading_space: "trim x \<noteq> [] \<Longrightarrow> \<not> isSpace (hd (trim x))"
proof -
  assume ne: "trim x \<noteq> []"
  let ?y = "dropWhile isSpace x"
  from stripR_prefix[of ?y isSpace] obtain zs where zs: "?y = trim x @ zs" by (auto simp: trim_def)
  with ne have "hd (trim x) = hd ?y" by (cases "trim x") auto
  moreover from zs ne have "?y \<noteq> []" by auto
  then have "\<not> isSpace (hd ?y)" by (rule hd_dropWhile)
  ultimately show ?thesis by simp
qed

lemma clampTitle_take: "clampTitle t mx = take mx (trim (orElse t ''Article''))"
  by (simp add: clampTitle_def Let_def)


lemma stripR_keeps:
  assumes "i < length x" and "\<not> p (x ! i)"
  shows "i < length (rev (dropWhile p (rev x)))"
proof (rule ccontr)
  let ?s = "rev (dropWhile p (rev x))"
  let ?z = "rev (takeWhile p (rev x))"
  assume "\<not> i < length ?s"
  then have le: "length ?s \<le> i" by simp
  have "?s @ ?z = rev (takeWhile p (rev x) @ dropWhile p (rev x))" by (simp only: rev_append)
  then have x: "x = ?s @ ?z" by simp
  from assms(1) x le have "i - length ?s < length ?z"
    by (metis add_diff_inverse_nat length_append nat_add_left_cancel_less not_le)
  moreover from x le have "x ! i = ?z ! (i - length ?s)" by (metis not_le nth_append)
  ultimately have "x ! i \<in> set ?z" by (metis nth_mem)
  then have "x ! i \<in> set (takeWhile p (rev x))" by simp
  then have "p (x ! i)" by (rule set_takeWhileD[THEN conjunct2])
  with assms(2) show False by simp
qed

lemma trim_no_trailing_space: "trim x \<noteq> [] \<Longrightarrow> \<not> isSpace (last (trim x))"
proof -
  assume ne: "trim x \<noteq> []"
  let ?r = "dropWhile isSpace (rev (dropWhile isSpace x))"
  from ne have r: "?r \<noteq> []" by (simp add: trim_def)
  then have "\<not> isSpace (hd ?r)" by (rule hd_dropWhile)
  moreover have "last (trim x) = hd ?r" using r by (simp add: trim_def last_rev)
  ultimately show ?thesis by simp
qed

lemma trim_id: "x \<noteq> [] \<Longrightarrow> \<not> isSpace (hd x) \<Longrightarrow> \<not> isSpace (last x) \<Longrightarrow> trim x = x"
proof -
  assume ne: "x \<noteq> []" and h: "\<not> isSpace (hd x)" and l: "\<not> isSpace (last x)"
  from ne h have a: "dropWhile isSpace x = x" by (cases x) auto
  from ne l have "\<not> isSpace (hd (rev x))" by (simp add: hd_rev)
  with ne have "dropWhile isSpace (rev x) = rev x" by (cases "rev x") auto
  with a show ?thesis by (simp add: trim_def)
qed

text \<open>
  The thread name against the title. \<open>s\<close> is the title as \<open>clampTitle\<close> first reads
  it: \<open>Article\<close> for a missing or empty title, white space stripped at both ends.
\<close>

lemma thread_name_blank:
  assumes "trim (orElse t ''Article'') = []"
  shows "clampTitle (Some (clampTitle t 100)) 90 = ''Article''"
proof -
  have "trim ''Article'' = ''Article''" by (simp add: trim_def isSpace_def)
  with assms show ?thesis by (simp add: clampTitle_take[of t] clampTitle_take[of "Some []"])
qed

lemma thread_name_take:
  assumes ne: "trim (orElse t ''Article'') \<noteq> []"
      and ok: "length (trim (orElse t ''Article'')) \<le> 90 \<or>
               \<not> isSpace (trim (orElse t ''Article'') ! 89)"
  shows "clampTitle (Some (clampTitle t 100)) 90 = take 90 (trim (orElse t ''Article''))"
proof -
  let ?s = "trim (orElse t ''Article'')"
  let ?safe = "clampTitle t 100"
  have safe: "?safe = take 100 ?s" by (rule clampTitle_take)
  with ne have sne: "?safe \<noteq> []" by simp
  then have n: "clampTitle (Some ?safe) 90 = take 90 (trim ?safe)" by (simp add: clampTitle_take)
  from safe sne have "hd ?safe = hd ?s" by (cases ?s) auto
  with trim_no_leading_space[OF ne] have "\<not> isSpace (hd ?safe)" by simp
  with sne have "dropWhile isSpace ?safe = ?safe" by (cases ?safe) auto
  then have tr: "trim ?safe = rev (dropWhile isSpace (rev ?safe))" by (simp add: trim_def)
  from stripR_prefix[of ?safe isSpace] tr obtain zs where zs: "?safe = trim ?safe @ zs" by auto
  show ?thesis
  proof (cases "length ?s \<le> 90")
    case True
    then have "?safe = ?s" by (simp add: safe)
    moreover from trim_id[OF ne trim_no_leading_space[OF ne] trim_no_trailing_space[OF ne]]
    have "trim ?s = ?s" .
    ultimately show ?thesis using n by simp
  next
    case False
    with ok have sp: "\<not> isSpace (?s ! 89)" by simp
    from False have "89 < length ?safe" by (simp add: safe)
    moreover from False sp have "\<not> isSpace (?safe ! 89)" by (simp add: safe)
    ultimately have "89 < length (trim ?safe)" unfolding tr by (rule stripR_keeps)
    then have "take 90 (trim ?safe @ zs) = take 90 (trim ?safe)" by simp
    with zs have "take 90 ?safe = take 90 (trim ?safe)" by simp
    with n show ?thesis by (simp add: safe)
  qed
qed

lemma thread_name_of_title:
  "(\<exists>zs. trim (orElse t ''Article'') = clampTitle (Some (clampTitle t 100)) 90 @ zs) \<or>
   clampTitle (Some (clampTitle t 100)) 90 = ''Article''"
proof (cases "clampTitle t 100 = []")
  case True
  have "trim ''Article'' = ''Article''" by (simp add: trim_def isSpace_def)
  with True show ?thesis by (simp add: clampTitle_take[of "Some []"])
next
  case False
  let ?s1 = "trim (orElse t ''Article'')"
  let ?safe = "clampTitle t 100"
  have safe: "?safe = take 100 ?s1" by (rule clampTitle_take)
  with False have ne: "?s1 \<noteq> []" by auto
  from safe False have "hd ?safe = hd ?s1" by (cases ?s1) auto
  with trim_no_leading_space[OF ne] have "\<not> isSpace (hd ?safe)" by simp
  with False have "dropWhile isSpace ?safe = ?safe" by (cases ?safe) auto
  then have tr: "trim ?safe = rev (dropWhile isSpace (rev ?safe))" by (simp add: trim_def)
  from stripR_prefix[of ?safe isSpace] tr obtain z1 where z1: "?safe = trim ?safe @ z1" by auto
  have "?s1 = ?safe @ drop 100 ?s1" by (simp add: safe)
  with z1 have a: "?s1 = trim ?safe @ (z1 @ drop 100 ?s1)" by (metis append.assoc)
  have n: "clampTitle (Some ?safe) 90 = take 90 (trim ?safe)"
    using False by (simp add: clampTitle_take)
  have "trim ?safe = take 90 (trim ?safe) @ drop 90 (trim ?safe)" by simp
  with a have "?s1 = take 90 (trim ?safe) @ (drop 90 (trim ?safe) @ z1 @ drop 100 ?s1)"
    by (metis append.assoc)
  with n show ?thesis by auto
qed

text \<open>
  Claim C5. With the bot token configured and the channel resolved (from the cache or by
  the lookup, which leaves the state \<open>st1\<close>), the channel type decides what
  \<open>sendToDiscord\<close> sends. Type 15: between one and three times (the transport's
  retries) the same \<open>POST .../threads\<close>, with \<open>auto_archive_duration\<close> 1440 and a
  thread name of at most 90 code units. Type 0: between one and three times the same
  \<open>POST .../messages\<close> carrying the message text. Any other type: the call fails with
  \<open>UnsupportedChannelType\<close> in the very state the lookup left, and the lookup itself
  sent at most three times the one \<open>GET\<close> of the channel. The thread name is the title:
  with \<open>s\<close> the title as \<open>clampTitle\<close> reads it (\<open>Article\<close> for a missing or empty
  title, white space stripped at both ends), the name is \<open>Article\<close> when \<open>s\<close> is
  empty, it is the first 90 code units of \<open>s\<close> when \<open>s\<close> has at most 90 of them or
  its 90th is not white space, and in every case it is a leading part of \<open>s\<close> or
  \<open>Article\<close>.
\<close>

theorem channel_type_decides_call:
  assumes tok: "orElse token [] \<noteq> []"
      and ch: "getChannel srv cid st = (Inr ch, st1)"
  shows "(ch_type ch = Some 15 \<longrightarrow>
            (\<exists>k. 1 \<le> k \<and> k \<le> 3 \<and>
               sent (snd (sendToDiscord P token srv cid t l st)) =
                 sent st1 @ replicate k
                   \<lparr>rmethod = POST, rurl = channelUrl cid @ ''/threads'',
                    rbody = Some (ThreadPayload (clampTitle (Some (clampTitle t 100)) 90) 1440
                              (trim (orElse (Some (messageText P t l))
                                      (orElse (Some (clampTitle t 100)) ''Article''))))\<rparr>)
            \<and> length (clampTitle (Some (clampTitle t 100)) 90) \<le> 90) \<and>
         (ch_type ch = Some 0 \<longrightarrow>
            (\<exists>k. 1 \<le> k \<and> k \<le> 3 \<and>
               sent (snd (sendToDiscord P token srv cid t l st)) =
                 sent st1 @ replicate k
                   \<lparr>rmethod = POST, rurl = channelUrl cid @ ''/messages'',
                    rbody = Some (MessagePayload (trim (messageText P t l)))\<rparr>)) \<and>
         (ch_type ch \<noteq> Some 15 \<and> ch_type ch \<noteq> Some 0 \<longrightarrow>
            sendToDiscord P token srv cid t l st =
              (Inl (UnsupportedChannelType (ch_type ch)), st1)) \<and>
         (\<exists>j. j \<le> 3 \<and> sent st1 =
            sent st @ replicate j \<lparr>rmethod = GET, rurl = channelUrl cid, rbody = None\<rparr>) \<and>
         (trim (orElse t ''Article'') = [] \<longrightarrow>
            clampTitle (Some (clampTitle t 100)) 90 = ''Article'') \<and>
         (trim (orElse t ''Article'') \<noteq> [] \<and>
          (length (trim (orElse t ''Article'')) \<le> 90 \<or>
           \<not> isSpace (trim (orElse t ''Article'') ! 89)) \<longrightarrow>
            clampTitle (Some (clampTitle t 100)) 90 = take 90 (trim (orElse t ''Article''))) \<and>
         ((\<exists>zs. trim (orElse t ''Article'') = clampTitle (Some (clampTitle t 100)) 90 @ zs) \<or>
          clampTitle (Some (clampTitle t 100)) 90 = ''Article'')"
proof (intro conjI impI)
  assume t15: "ch_type ch = Some 15"
  obtain r s where c: "createForumThread srv cid (clampTitle t 100) (messageText P t l) st1 = (r, s)"
    by (cases "createForumThread srv cid (clampTitle t 100) (messageText P t l) st1")
  from tok ch t15 c have "snd (sendToDiscord P token srv cid t l st) = s"
    by (auto simp: sendToDiscord_def Let_def split: sum.splits)
  with createForumThread_trace[OF c]
  show "\<exists>k. 1 \<le> k \<and> k \<le> 3 \<and>
               sent (snd (sendToDiscord P token srv cid t l st)) =
                 sent st1 @ replicate k
                   \<lparr>rmethod = POST, rurl = channelUrl cid @ ''/threads'',
                    rbody = Some (ThreadPayload (clampTitle (Some (clampTitle t 100)) 90) 1440
                              (trim (orElse (Some (messageText P t l))
                                      (orElse (Some (clampTitle t 100)) ''Article''))))\<rparr>"
    by (simp add: threadRequest_def)
next
  show "length (clampTitle (Some (clampTitle t 100)) 90) \<le> 90" by (rule length_clampTitle)
next
  assume t0: "ch_type ch = Some 0"
  obtain r s where c: "postTextMessage srv cid (messageText P t l) st1 = (r, s)"
    by (cases "postTextMessage srv cid (messageText P t l) st1")
  from tok ch t0 c have "snd (sendToDiscord P token srv cid t l st) = s"
    by (auto simp: sendToDiscord_def Let_def split: sum.splits)
  with postTextMessage_trace[OF c]
  show "\<exists>k. 1 \<le> k \<and> k \<le> 3 \<and>
               sent (snd (sendToDiscord P token srv cid t l st)) =
                 sent st1 @ replicate k
                   \<lparr>rmethod = POST, rurl = channelUrl cid @ ''/messages'',
                    rbody = Some (MessagePayload (trim (messageText P t l)))\<rparr>"
    by (simp add: messageRequest_def)
next
  assume "ch_type ch \<noteq> Some 15 \<and> ch_type ch \<noteq> Some 0"
  with tok ch
  show "sendToDiscord P token srv cid t l st = (Inl (UnsupportedChannelType (ch_type ch)), st1)"
    by (simp add: sendToDiscord_def Let_def)
next
  from getChannel_trace[OF ch]
  show "\<exists>j. j \<le> 3 \<and> sent st1 =
            sent st @ replicate j \<lparr>rmethod = GET, rurl = channelUrl cid, rbody = None\<rparr>" .
next
  assume "trim (orElse t ''Article'') = []"
  then show "clampTitle (Some (clampTitle t 100)) 90 = ''Article''" by (rule thread_name_blank)
next
  assume "trim (orElse t ''Article'') \<noteq> [] \<and>
          (length (trim (orElse t ''Article'')) \<le> 90 \<or>
           \<not> isSpace (trim (orElse t ''Article'') ! 89))"
  then show "clampTitle (Some (clampTitle t 100)) 90 = take 90 (trim (orElse t ''Article''))"
    by (simp add: thread_name_take)
next
  show "(\<exists>zs. trim (orElse t ''Article'') = clampTitle (Some (clampTitle t 100)) 90 @ zs) \<or>
          clampTitle (Some (clampTitle t 100)) 90 = ''Article''"
    by (rule thread_name_of_title)
qed


lemma trim_longTitle: "trim longTitle = longTitle"
proof -
  have "\<not> isSpace (CHR ''x'')" by (simp add: isSpace_def)
  moreover have "longTitle \<noteq> []" "hd longTitle = CHR ''x''" "last longTitle = CHR ''x''"
    by (simp_all add: longTitle_def)
  ultimately show ?thesis by (simp add: trim_id)
qed

theorem channel_type_decides_call_witness:
  "orElse (Some ''token'') [] \<noteq> [] \<and>
   getChannel forumServer ''1234567890123456'' emptyState = (Inr forumChannel, forumState) \<and>
   ch_type forumChannel = Some 15 \<and>
   trim (orElse (Some longTitle) ''Article'') = longTitle \<and> length longTitle = 120 \<and>
   clampTitle (Some (clampTitle (Some longTitle) 100)) 90 = replicate 90 (CHR ''x'') \<and>
   (\<exists>k. 1 \<le> k \<and> k \<le> 3 \<and>
      sent (snd (sendToDiscord demoPlatform (Some ''token'') forumServer ''1234567890123456''
                   (Some longTitle) (link itemB) emptyState)) =
        sent forumState @ replicate k
          \<lparr>rmethod = POST, rurl = channelUrl ''1234567890123456'' @ ''/threads'',
           rbody = Some (ThreadPayload (replicate 90 (CHR ''x'')) 1440
                     (trim (orElse (Some (messageText demoPlatform (Some longTitle) (link itemB)))
                             (orElse (Some (clampTitle (Some longTitle) 100)) ''Article''))))\<rparr>) \<and>
   getChannel (\<lambda>n rq. okReply) ''1234567890123456'' cachedState = (Inr textChannel, cachedState) \<and>
   ch_type textChannel = Some 0 \<and>
   (\<exists>k. 1 \<le> k \<and> k \<le> 3 \<and>
      sent (snd (sendToDiscord demoPlatform (Some ''token'') (\<lambda>n rq. okReply) ''1234567890123456''
                   (title itemB) (link itemB) cachedState)) =
        sent cachedState @ replicate k
          \<lparr>rmethod = POST, rurl = channelUrl ''1234567890123456'' @ ''/messages'',
           rbody = Some (MessagePayload
                     (trim (messageText demoPlatform (title itemB) (link itemB))))\<rparr>) \<and>
   getChannel voiceServer ''1234567890123456'' emptyState = (Inr voiceChannel, voiceState) \<and>
   ch_type voiceChannel = Some 2 \<and>
   sendToDiscord demoPlatform (Some ''token'') voiceServer ''1234567890123456''
     (title itemB) (link itemB) emptyState = (Inl (UnsupportedChannelType (Some 2)), voiceState)"
proof -
  have h1: "orElse (Some ''token'') [] \<noteq> []" by simp
  have h2: "getChannel forumServer ''1234567890123456'' emptyState = (Inr forumChannel, forumState)"
    by (simp add: getChannel_def emptyState_def forumServer_def forumHttp_def forumChannelJson_def
        forumChannel_def forumState_def discordFetch_settle settle_def ok_def Let_def)
  have h3: "ch_type forumChannel = Some 15" by (simp add: forumChannel_def)
  have l: "length longTitle = 120" "longTitle \<noteq> []" "\<not> isSpace (longTitle ! 89)"
    "take 90 longTitle = replicate 90 (CHR ''x'')"
    by (simp_all add: longTitle_def isSpace_def)
  have s: "trim (orElse (Some longTitle) ''Article'') = longTitle"
    using l(2) by (simp add: trim_longTitle)
  have g2: "getChannel (\<lambda>n rq. okReply) ''1234567890123456'' cachedState =
              (Inr textChannel, cachedState)"
    by (simp add: getChannel_def cachedState_def)
  have t0: "ch_type textChannel = Some 0" by (simp add: textChannel_def)
  have g3: "getChannel voiceServer ''1234567890123456'' emptyState = (Inr voiceChannel, voiceState)"
    by (simp add: getChannel_def emptyState_def voiceServer_def voiceChannelJson_def
        voiceChannel_def voiceState_def discordFetch_settle settle_def ok_def Let_def)
  have t2: "ch_type voiceChannel = Some 2" by (simp add: voiceChannel_def)
  note c = channel_type_decides_call[OF h1 h2, of demoPlatform "Some longTitle" "link itemB"]
  from c s l have n: "clampTitle (Some (clampTitle (Some longTitle) 100)) 90 = replicate 90 (CHR ''x'')"
    by (simp del: orElse.simps)
  from c h3 have "\<exists>k. 1 \<le> k \<and> k \<le> 3 \<and>
      sent (snd (sendToDiscord demoPlatform (Some ''token'') forumServer ''1234567890123456''
                   (Some longTitle) (link itemB) emptyState)) =
        sent forumState @ replicate k
          \<lparr>rmethod = POST, rurl = channelUrl ''1234567890123456'' @ ''/threads'',
           rbody = Some (ThreadPayload (clampTitle (Some (clampTitle (Some longTitle) 100)) 90) 1440
                     (trim (orElse (Some (messageText demoPlatform (Some longTitle) (link itemB)))
                             (orElse (Some (clampTitle (Some longTitle) 100)) ''Article''))))\<rparr>"
    by (simp del: orElse.simps)
  with n have a: "clampTitle (Some (clampTitle (Some longTitle) 100)) 90 = replicate 90 (CHR ''x'') \<and>
    (\<exists>k. 1 \<le> k \<and> k \<le> 3 \<and>
      sent (snd (sendToDiscord demoPlatform (Some ''token'') forumServer ''1234567890123456''
                   (Some longTitle) (link itemB) emptyState)) =
        sent forumState @ replicate k
          \<lparr>rmethod = POST, rurl = channelUrl ''1234567890123456'' @ ''/threads'',
           rbody = Some (ThreadPayload (replicate 90 (CHR ''x'')) 1440
                     (trim (orElse (Some (messageText demoPlatform (Some longTitle) (link itemB)))
                             (orElse (Some (clampTitle (Some longTitle) 100)) ''Article''))))\<rparr>)"
    by (simp del: orElse.simps)
  from channel_type_decides_call[OF h1 g2, of demoPlatform "title itemB" "link itemB"] t0
  have b: "\<exists>k. 1 \<le> k \<and> k \<le> 3 \<and>
      sent (snd (sendToDiscord demoPlatform (Some ''token'') (\<lambda>n rq. okReply) ''1234567890123456''
                   (title itemB) (link itemB) cachedState)) =
        sent cachedState @ replicate k
          \<lparr>rmethod = POST, rurl = channelUrl ''1234567890123456'' @ ''/messages'',
           rbody = Some (MessagePayload
                     (trim (messageText demoPlatform (title itemB) (link itemB))))\<rparr>"
    by (simp del: orElse.simps)
  from channel_type_decides_call[OF h1 g3, of demoPlatform "title itemB" "link itemB"] t2
  have c: "sendToDiscord demoPlatform (Some ''token'') voiceServer ''1234567890123456''
     (title itemB) (link itemB) emptyState = (Inl (UnsupportedChannelType (Some 2)), voiceState)"
    by (simp del: orElse.simps)
  from a b c h1 h2 h3 s l(1) g2 t0 g3 t2 show ?thesis by (simp del: orElse.simps)
qed

text \<open>A run written out: one lookup, then one thread.\<close>

lemma forum_thread_run:
  "sent (snd (sendToDiscord demoPlatform (Some ''token'') forumServer ''1234567890123456''
                (title itemB) (link itemB) emptyState)) =
     [\<lparr>rmethod = GET, rurl = ''https://discord.com/api/v10/channels/1234567890123456'',
       rbody = None\<rparr>,
      \<lparr>rmethod = POST, rurl = ''https://discord.com/api/v10/channels/1234567890123456/threads'',
       rbody = Some (ThreadPayload ''Second post'' 1440
                       (''Second post'' @ [CHR 0x0A] @ ''https://blog.example/b''))\<rparr>]"
  by (simp add: sendToDiscord_def getChannel_def emptyState_def forumServer_def forumHttp_def
        forumChannelJson_def
        discordFetch_settle settle_def ok_def Let_def createForumThread_def threadRequest_def
        messageText_def clampTitle_def sanitizeLink_def isValidUrl_def demoPlatform_def itemB_def
        trim_def isSpace_def channelUrl_def okReply_def okHttp_def)

section \<open>Retries on a rate limit\<close>

text \<open>
  The double arithmetic on the values the runs below meet. 2.007 is read as the double
  4519362226066293 / 2^51, a little above 2.007; its product with 1000 rounds to the
  double next above 2007, and \<open>Math.ceil\<close> gives 2008.
\<close>

lemma roundTo53_demo:
  "roundTo53 1000 = 1000"
  "roundTo53 (2007 / 1000) = 4519362226066293 / 2251799813685248"
  "roundTo53 (564920278258286625 / 281474976710656) = 8826879347785729 / 4398046511104"
  by code_simp+

lemma toDouble_0: "toDouble 0 = Dbl 0"
  by (simp add: toDouble_def)

lemma toDouble_1000: "toDouble 1000 = Dbl 1000"
  by (simp add: toDouble_def roundTo53_demo Let_def)

lemma default_delay: "mathCeil (times1000 (Dbl 1)) = Num 1000"
  by (simp add: toDouble_1000)

lemma toDouble_decimal: "toDouble (2007 / 1000) = Dbl (4519362226066293 / 2251799813685248)"
  by (simp add: toDouble_def roundTo53_demo Let_def)

lemma toDouble_product:
  "toDouble (564920278258286625 / 281474976710656) = Dbl (8826879347785729 / 4398046511104)"
  by (simp add: toDouble_def roundTo53_demo Let_def)

lemma times1000_decimal:
  "times1000 (toDouble (2007 / 1000)) = Dbl (8826879347785729 / 4398046511104)"
  by (simp add: toDouble_decimal toDouble_product)

lemma ceiling_demo: "\<lceil>8826879347785729 / 4398046511104 :: rat\<rceil> = 2008"
  by (simp add: ceiling_unique)

lemmas double_demo = toDouble_0 toDouble_1000 toDouble_decimal toDouble_product ceiling_demo

lemma decimal_delay: "mathCeil (times1000 (toDouble (2007 / 1000))) = Num 2008"
  by (simp add: double_demo)

lemma truthyD_iff: "truthyD d \<longleftrightarrow> d \<noteq> Dbl 0"
  by (cases d) simp_all

lemma retryMs_default:
  "b = None \<or> b = Some JNull \<or>
   (\<exists>j. b = Some (JObj j) \<and>
        (retry_after j = None \<or> (\<exists>r. retry_after j = Some r \<and> toDouble r = Dbl 0)))
   \<Longrightarrow> retryMs b = Num 1000"
  by (auto simp: retryMs_def toDouble_1000)

lemma retryMs_named:
  "b = Some (JObj j) \<Longrightarrow> retry_after j = Some r \<Longrightarrow> toDouble r \<noteq> Dbl 0 \<Longrightarrow>
   retryMs b = mathCeil (times1000 (toDouble r))"
  by (simp add: retryMs_def truthyD_iff)

lemma retryMs_demo:
  "retryMs (json_body decimalReply) = Num 2008"
  "retryMs (json_body zeroDelayReply) = Num 1000"
  "retryMs (json_body busyReply) = Num 1000"
  by (simp_all add: retryMs_def decimalReply_def zeroDelayReply_def busyReply_def double_demo)

lemma two_is: "(2::nat) = Suc (Suc 0)"
  by simp

text \<open>
  Claim C6, as the transport has it. A request is sent at least once and at most three
  times, whatever the remote side answers. A first or
  second answer with status 429 makes the transport wait and send again. When the body
  is an object naming a \<open>retry_after\<close> that does not read as zero, the wait is the
  product of \<open>retry_after\<close> and 1000 taken in double precision and rounded up to a whole
  number of ms (2008 ms for 2.007, see the run below); it is 1000 ms when the body cannot
  be parsed, is \<open>null\<close>, names no \<open>retry_after\<close> or names one that reads as zero. The answer that ends the exchange (the first one that is
  not a 429, or the third one whatever it is) is returned when its status is a success
  and thrown otherwise as an error carrying the status and the body; 429 is not a
  success, so exhausted retries end in that error.
\<close>

theorem rate_limit_retries:
  "(srv (length (sent st)) rq = Resp h0 \<and> status h0 \<noteq> 429 \<longrightarrow>
      discordFetch srv rq 2 st = (settle rq h0, st\<lparr>sent := sent st @ [rq]\<rparr>)) \<and>
   (srv (length (sent st)) rq = Resp h0 \<and> status h0 = 429 \<and>
    srv (length (sent st) + 1) rq = Resp h1 \<and> status h1 \<noteq> 429 \<longrightarrow>
      discordFetch srv rq 2 st =
        (settle rq h1, st\<lparr>sent := sent st @ [rq, rq],
                          waits := waits st @ [retryMs (json_body h0)]\<rparr>)) \<and>
   (srv (length (sent st)) rq = Resp h0 \<and> status h0 = 429 \<and>
    srv (length (sent st) + 1) rq = Resp h1 \<and> status h1 = 429 \<and>
    srv (length (sent st) + 2) rq = Resp h2 \<longrightarrow>
      discordFetch srv rq 2 st =
        (settle rq h2, st\<lparr>sent := sent st @ [rq, rq, rq],
                          waits := waits st @ [retryMs (json_body h0), retryMs (json_body h1)]\<rparr>)) \<and>
   (\<not> ok (status h) \<longrightarrow>
      settle rq h = Inl (DiscordError (rmethod rq) (rurl rq) (status h) (text_body h))) \<and>
   (ok (status h) \<longrightarrow> settle rq h = Inr h) \<and>
   \<not> ok 429 \<and>
   (b = None \<or> b = Some JNull \<or>
    (\<exists>j. b = Some (JObj j) \<and>
         (retry_after j = None \<or> (\<exists>r. retry_after j = Some r \<and> toDouble r = Dbl 0)))
      \<longrightarrow> retryMs b = Num 1000) \<and>
   (b = Some (JObj j) \<and> retry_after j = Some r \<and> toDouble r \<noteq> Dbl 0 \<longrightarrow>
      retryMs b = mathCeil (times1000 (toDouble r))) \<and>
   (discordFetch srv rq 2 st = (res, st') \<longrightarrow>
      (\<exists>k. 1 \<le> k \<and> k \<le> 3 \<and> sent st' = sent st @ replicate k rq))"
proof (intro conjI impI)
  assume "srv (length (sent st)) rq = Resp h0 \<and> status h0 \<noteq> 429"
  then show "discordFetch srv rq 2 st = (settle rq h0, st\<lparr>sent := sent st @ [rq]\<rparr>)"
    by (simp add: discordFetch_settle)
next
  assume a: "srv (length (sent st)) rq = Resp h0 \<and> status h0 = 429 \<and>
    srv (length (sent st) + 1) rq = Resp h1 \<and> status h1 \<noteq> 429"
  let ?s1 = "st\<lparr>sent := sent st @ [rq], waits := waits st @ [retryMs (json_body h0)]\<rparr>"
  from a have "discordFetch srv rq 2 st = discordFetch srv rq 1 ?s1"
    unfolding two_is by (simp add: discordFetch_retry)
  also from a have "\<dots> = (settle rq h1, ?s1\<lparr>sent := sent ?s1 @ [rq]\<rparr>)"
    by (intro discordFetch_settle) simp_all
  finally show "discordFetch srv rq 2 st =
        (settle rq h1, st\<lparr>sent := sent st @ [rq, rq],
                          waits := waits st @ [retryMs (json_body h0)]\<rparr>)"
    by simp
next
  assume a: "srv (length (sent st)) rq = Resp h0 \<and> status h0 = 429 \<and>
    srv (length (sent st) + 1) rq = Resp h1 \<and> status h1 = 429 \<and>
    srv (length (sent st) + 2) rq = Resp h2"
  let ?s1 = "st\<lparr>sent := sent st @ [rq], waits := waits st @ [retryMs (json_body h0)]\<rparr>"
  let ?s2 = "?s1\<lparr>sent := sent ?s1 @ [rq], waits := waits ?s1 @ [retryMs (json_body h1)]\<rparr>"
  from a have "discordFetch srv rq 2 st = discordFetch srv rq (Suc 0) ?s1"
    unfolding two_is by (simp add: discordFetch_retry)
  also from a have "\<dots> = discordFetch srv rq 0 ?s2"
    by (intro discordFetch_retry) simp_all
  also from a have "\<dots> = (settle rq h2, ?s2\<lparr>sent := sent ?s2 @ [rq]\<rparr>)"
    by (intro discordFetch_settle) simp_all
  finally show "discordFetch srv rq 2 st =
        (settle rq h2, st\<lparr>sent := sent st @ [rq, rq, rq],
                          waits := waits st @ [retryMs (json_body h0), retryMs (json_body h1)]\<rparr>)"
    by simp
next
  assume "\<not> ok (status h)"
  then show "settle rq h = Inl (DiscordError (rmethod rq) (rurl rq) (status h) (text_body h))"
    by (simp add: settle_def)
next
  assume "ok (status h)"
  then show "settle rq h = Inr h" by (simp add: settle_def)
next
  show "\<not> ok 429" by (simp add: ok_def)
next
  assume "b = None \<or> b = Some JNull \<or>
    (\<exists>j. b = Some (JObj j) \<and>
         (retry_after j = None \<or> (\<exists>r. retry_after j = Some r \<and> toDouble r = Dbl 0)))"
  then show "retryMs b = Num 1000" by (rule retryMs_default)
next
  assume "b = Some (JObj j) \<and> retry_after j = Some r \<and> toDouble r \<noteq> Dbl 0"
  then show "retryMs b = mathCeil (times1000 (toDouble r))" by (simp add: retryMs_named)
next
  assume "discordFetch srv rq 2 st = (res, st')"
  from discordFetch_trace[OF this]
  show "\<exists>k. 1 \<le> k \<and> k \<le> 3 \<and> sent st' = sent st @ replicate k rq" by auto
qed

text \<open>
  Claim C6 as worded has the transport wait the delay the server names. A body naming
  \<open>retry_after: 0\<close> names a delay of 0 ms; the transport waits 1000 ms.
\<close>

theorem rate_limit_zero_delay_counterexample:
  "zeroDelayServer 0 pingRequest = Resp zeroDelayReply \<and> status zeroDelayReply = 429 \<and>
   specRetryDelay (json_body zeroDelayReply) = Num 0 \<and>
   waits (snd (discordFetch zeroDelayServer pingRequest 2 emptyState)) = [Num 1000]"
proof -
  have s: "specRetryDelay (json_body zeroDelayReply) = Num 0"
    by (simp add: specRetryDelay_def zeroDelayReply_def toDouble_0)
  have "discordFetch zeroDelayServer pingRequest 2 emptyState =
          discordFetch zeroDelayServer pingRequest (Suc 0)
            (emptyState\<lparr>sent := [pingRequest], waits := [Num 1000]\<rparr>)"
    unfolding two_is
    by (subst discordFetch_retry[where h = zeroDelayReply])
       (simp_all add: zeroDelayServer_def emptyState_def zeroDelayReply_def[THEN arg_cong, of status]
          retryMs_demo)
  also have "\<dots> = (settle pingRequest okHttp,
        emptyState\<lparr>sent := [pingRequest, pingRequest], waits := [Num 1000]\<rparr>)"
    by (subst discordFetch_settle[where h = okHttp])
       (simp_all add: zeroDelayServer_def emptyState_def okReply_def okHttp_def)
  finally show ?thesis
    using s by (simp add: zeroDelayServer_def zeroDelayReply_def emptyState_def)
qed

text \<open>
  Three exchanges: an immediate success; one 429 naming \<open>retry_after: 0\<close>, then a
  success; a 429 naming \<open>retry_after: 2.007\<close> followed by two 429 with an unparsable body,
  which ends in the error carrying the status and the body after waits of 2008 and
  1000 ms.
\<close>

theorem rate_limit_retries_witness:
  "discordFetch forumServer pingRequest 2 emptyState =
     (Inr forumHttp,
      emptyState\<lparr>sent := [pingRequest]\<rparr>) \<and>
   discordFetch zeroDelayServer pingRequest 2 emptyState =
     (Inr okHttp, emptyState\<lparr>sent := [pingRequest, pingRequest], waits := [Num 1000]\<rparr>) \<and>
   discordFetch busyServer pingRequest 2 emptyState =
     (Inl (DiscordError GET (channelUrl ''1234567890123456'') 429 ''busy''),
      emptyState\<lparr>sent := [pingRequest, pingRequest, pingRequest],
                 waits := [Num 2008, Num 1000]\<rparr>)"
proof -
  have e: "sent emptyState = []" "waits emptyState = []" by (simp_all add: emptyState_def)
  have a: "discordFetch forumServer pingRequest 2 emptyState =
     (Inr forumHttp,
      emptyState\<lparr>sent := [pingRequest]\<rparr>)"
    using rate_limit_retries[where srv = forumServer and st = emptyState and rq = pingRequest
        and ?h0.0 = forumHttp and h = forumHttp]
    by (simp add: e forumServer_def pingRequest_def) (simp add: forumHttp_def ok_def)
  have b: "discordFetch zeroDelayServer pingRequest 2 emptyState =
     (Inr okHttp, emptyState\<lparr>sent := [pingRequest, pingRequest], waits := [Num 1000]\<rparr>)"
    using rate_limit_retries[where srv = zeroDelayServer and st = emptyState and rq = pingRequest
        and ?h0.0 = zeroDelayReply and ?h1.0 = okHttp and h = okHttp
        and b = "json_body zeroDelayReply"
        and j = "\<lparr>retry_after = Some 0, j_id = None, j_type = None, j_name = None\<rparr>"]
    by (simp add: e zeroDelayServer_def okReply_def)
       (simp add: zeroDelayReply_def okHttp_def ok_def toDouble_0)
  have c: "discordFetch busyServer pingRequest 2 emptyState =
     (Inl (DiscordError GET (channelUrl ''1234567890123456'') 429 ''busy''),
      emptyState\<lparr>sent := [pingRequest, pingRequest, pingRequest],
                 waits := [Num 2008, Num 1000]\<rparr>)"
    using rate_limit_retries[where srv = busyServer and st = emptyState and rq = pingRequest
        and ?h0.0 = decimalReply and ?h1.0 = busyReply and ?h2.0 = busyReply and h = busyReply
        and b = "json_body decimalReply" and r = "2007 / 1000"
        and j = "\<lparr>retry_after = Some (2007 / 1000), j_id = None, j_type = None, j_name = None\<rparr>"]
      rate_limit_retries[where b = "json_body busyReply"]
    by (simp add: e busyServer_def)
       (simp add: decimalReply_def busyReply_def ok_def pingRequest_def double_demo)
  from a b c show ?thesis by simp
qed

section \<open>The per-feed check\<close>

lemma checkFluxTry_latest:
  assumes "isValidUrl P (rssUrl f)"
      and "parseRssWithTimeout E (rssUrl f) = Inr fd"
      and "selectLatest P (feedItems fd) = Some latest"
  shows "checkFluxTry P E f st =
     (let latestLink = sanitizeLink P (Some (getItemLinkOrGuid latest));
          latestDate = getItemDate P latest
      in if latestLink = [] then (Inr NoLink, f, st, None)
         else if lastItem f = Some latestLink \<or> dateGate (lastPubDate f) latestDate
         then (Inr NoNovelty, f, st, None)
         else case sendToDiscord P (DISCORD_TOKEN E) (discord E) (discordTarget f)
                     (title latest) (Some latestLink) st of
           (Inl e, st1) \<Rightarrow> (Inl e, f, st1, None)
         | (Inr _, st1) \<Rightarrow>
             (let f1 = f\<lparr>lastItem := Some latestLink\<rparr>;
                  f2 = (if truthyN latestDate then f1\<lparr>lastPubDate := Some latestDate\<rparr>
                        else f1)
              in case save E f2 of
                   Some m \<Rightarrow> (Inl (SaveError m), f2, st1, None)
                 | None \<Rightarrow> (Inr Delivered, f2, st1, Some (schemaOnly f2))))"
  using assms by (simp add: checkFluxTry_def)

lemma checkFluxTry_invalid:
  "\<not> isValidUrl P (rssUrl f) \<Longrightarrow> checkFluxTry P E f st = (Inr InvalidUrl, f, st, None)"
  by (simp add: checkFluxTry_def)

lemma sanitizeLink_empty_iff:
  "sanitizeLink P (Some s) = [] \<longleftrightarrow> trim s = [] \<or> \<not> isValidUrl P (trim s)"
  by (cases "s = []") (auto simp: sanitizeLink_def Let_def trim_def)

lemma selectLatest_single: "selectLatest P [i] = Some i"
  by (simp add: sortedByDate_def sortBy_def)

lemma demo_trims:
  "trim ''https://blog.example/a'' = ''https://blog.example/a''"
  "trim ''https://blog.example/b'' = ''https://blog.example/b''"
  "trim ''https://blog.example/c'' = ''https://blog.example/c''"
  "trim ''First post'' = ''First post''"
  "trim ''Second post'' = ''Second post''"
  "trim ''Undated post'' = ''Undated post''"
  "trim ''Article'' = ''Article''"
  by (simp_all add: trim_def isSpace_def)

lemma demo_urls:
  "isValidUrl demoPlatform ''https://blog.example/feed.xml''"
  "isValidUrl demoPlatform ''https://blog.example/news.xml''"
  "isValidUrl demoPlatform ''https://blog.example/a''"
  "isValidUrl demoPlatform ''https://blog.example/b''"
  "isValidUrl demoPlatform ''https://blog.example/c''"
  by (simp_all add: isValidUrl_def demoPlatform_def)

lemma demo_dates:
  "getItemDate demoPlatform itemA = Num 1704067200000"
  "getItemDate demoPlatform itemB = Num 1704153600000"
  "getItemDate demoPlatform itemTagged = Num 1704153600000"
  "getItemDate demoPlatform itemUndated = Num 0"
  "getItemDate demoPlatform itemGuidOnly = Num 0"
  by (simp_all add: getItemDate_def dateTime_def demoPlatform_def itemA_def itemB_def
      itemTagged_def itemUndated_def itemGuidOnly_def)

lemma demo_links:
  "sanitizeLink demoPlatform (Some (getItemLinkOrGuid itemA)) = ''https://blog.example/a''"
  "sanitizeLink demoPlatform (Some (getItemLinkOrGuid itemB)) = ''https://blog.example/b''"
  "sanitizeLink demoPlatform (Some (getItemLinkOrGuid itemTagged)) = ''https://blog.example/b''"
  "sanitizeLink demoPlatform (Some (getItemLinkOrGuid itemGuidOnly)) = ''https://blog.example/c''"
  by (simp_all add: sanitizeLink_def getItemLinkOrGuid_def itemA_def itemB_def itemTagged_def
      itemGuidOnly_def demo_trims demo_urls)

text \<open>
  The selections of the runs below. In the three-item feed the newest item is neither
  the first nor the last; in the undated feed no date is truthy and the first item
  stays.
\<close>

lemma demo_select: "selectLatest demoPlatform [itemA, itemB] = Some itemB"
  by (simp add: sortedByDate_def sortBy_def countAndMakeRun_def demo_dates byDateDesc_def)

lemma demo_select_middle:
  "selectLatest demoPlatform [itemA, itemTagged, itemUndated] = Some itemTagged"
  by (simp add: sortedByDate_def sortBy_def countAndMakeRun_def demo_dates byDateDesc_def
      binarySearch.simps Let_def)

lemma demo_select_undated:
  "selectLatest demoPlatform [itemGuidOnly, itemUndated] = Some itemGuidOnly"
  by (simp add: sortedByDate_def sortBy_def countAndMakeRun_def demo_dates byDateDesc_def)

text \<open>A delivery to the text channel the cache knows: one \<open>POST\<close> of the message.\<close>

lemma send_to_text_channel:
  assumes "channelTypeCache st ''1234567890123456'' = Some textChannel"
      and "srv (length (sent st))
             (messageRequest ''1234567890123456'' (messageText demoPlatform t l)) = okReply"
  shows "sendToDiscord demoPlatform (Some ''token'') srv ''1234567890123456'' t l st =
           (Inr (), st\<lparr>sent := sent st @
               [messageRequest ''1234567890123456'' (messageText demoPlatform t l)]\<rparr>)"
  using assms
  by (simp add: sendToDiscord_def getChannel_def textChannel_def Let_def postTextMessage_def
      discordFetch_settle[where h = okHttp] okReply_def okHttp_def settle_def ok_def)

lemma demo_messages:
  "messageRequest ''1234567890123456''
     (messageText demoPlatform (Some ''Second post'') (Some ''https://blog.example/b'')) =
   \<lparr>rmethod = POST, rurl = ''https://discord.com/api/v10/channels/1234567890123456/messages'',
     rbody = Some (MessagePayload (''Second post'' @ [CHR 0x0A] @ ''https://blog.example/b''))\<rparr>"
  "messageRequest ''1234567890123456''
     (messageText demoPlatform (Some ''First post'') (Some ''https://blog.example/a'')) =
   \<lparr>rmethod = POST, rurl = ''https://discord.com/api/v10/channels/1234567890123456/messages'',
     rbody = Some (MessagePayload (''First post'' @ [CHR 0x0A] @ ''https://blog.example/a''))\<rparr>"
  "messageRequest ''1234567890123456''
     (messageText demoPlatform None (Some ''https://blog.example/c'')) =
   \<lparr>rmethod = POST, rurl = ''https://discord.com/api/v10/channels/1234567890123456/messages'',
     rbody = Some (MessagePayload (''Article'' @ [CHR 0x0A] @ ''https://blog.example/c''))\<rparr>"
  by (simp_all add: messageRequest_def messageText_def clampTitle_def sanitizeLink_def demo_trims
      demo_urls channelUrl_def Let_def)
     (simp_all add: trim_def isSpace_def)

lemma demo_send:
  "sendToDiscord demoPlatform (Some ''token'') (\<lambda>n rq. okReply) ''1234567890123456''
     (title itemB) (Some ''https://blog.example/b'') cachedState = (Inr (), deliveredState)"
  by (simp add: send_to_text_channel cachedState_def itemB_def demo_messages deliveredState_def)

lemma checkFlux_delivers:
  assumes "isValidUrl P (rssUrl f)"
      and "parseRssWithTimeout E (rssUrl f) = Inr fd"
      and "selectLatest P (feedItems fd) = Some latest"
      and "sanitizeLink P (Some (getItemLinkOrGuid latest)) = lnk" and "lnk \<noteq> []"
      and "lastItem f \<noteq> Some lnk" and "\<not> dateGate (lastPubDate f) (getItemDate P latest)"
      and "sendToDiscord P (DISCORD_TOKEN E) (discord E) (discordTarget f) (title latest)
             (Some lnk) st = (Inr (), st1)"
      and "f2 = (if truthyN (getItemDate P latest)
                 then f\<lparr>lastItem := Some lnk, lastPubDate := Some (getItemDate P latest)\<rparr>
                 else f\<lparr>lastItem := Some lnk\<rparr>)"
      and "save E f2 = None"
  shows "checkFlux P E f st =
           \<lparr>flux_after = f2, dstate_after = st1, stored = Some (schemaOnly f2),
            outcome = Delivered\<rparr>"
  unfolding checkFlux_def checkFluxTry_latest[OF assms(1,2,3)]
  using assms(4-) by (simp add: Let_def)

lemma sendToDiscord_sent:
  assumes "sendToDiscord P tok srv cid t l st = (Inr u, st')"
  shows "\<exists>j k rq. j \<le> 3 \<and> 1 \<le> k \<and> k \<le> 3 \<and>
           (rq = threadRequest cid (clampTitle t 100) (messageText P t l) \<or>
            rq = messageRequest cid (messageText P t l)) \<and>
           sent st' = sent st @ replicate j \<lparr>rmethod = GET, rurl = channelUrl cid, rbody = None\<rparr>
                        @ replicate k rq"
proof -
  from assms have tok: "orElse tok [] \<noteq> []"
    by (auto simp: sendToDiscord_def split: if_splits)
  obtain r st1 where g: "getChannel srv cid st = (r, st1)" by (cases "getChannel srv cid st")
  from assms tok g obtain ch where r: "r = Inr ch"
    by (cases r) (auto simp: sendToDiscord_def)
  from getChannel_trace[OF g] obtain j where j: "j \<le> 3"
    "sent st1 = sent st @ replicate j \<lparr>rmethod = GET, rurl = channelUrl cid, rbody = None\<rparr>"
    by blast
  consider (forum) "ch_type ch = Some 15" | (plain) "ch_type ch = Some 0"
    | (other) "ch_type ch \<noteq> Some 15" "ch_type ch \<noteq> Some 0" by blast
  then show ?thesis
  proof cases
    case forum
    obtain r2 s where c: "createForumThread srv cid (clampTitle t 100) (messageText P t l) st1 = (r2, s)"
      by (cases "createForumThread srv cid (clampTitle t 100) (messageText P t l) st1")
    from assms tok g r forum c have "st' = s"
      by (auto simp: sendToDiscord_def Let_def split: sum.splits)
    with createForumThread_trace[OF c] j show ?thesis by auto
  next
    case plain
    obtain r2 s where c: "postTextMessage srv cid (messageText P t l) st1 = (r2, s)"
      by (cases "postTextMessage srv cid (messageText P t l) st1")
    from assms tok g r plain c have "st' = s"
      by (auto simp: sendToDiscord_def Let_def split: sum.splits)
    with postTextMessage_trace[OF c] j show ?thesis by auto
  next
    case other
    with assms tok g r show ?thesis by (simp add: sendToDiscord_def Let_def)
  qed
qed

lemma checkFlux_Delivered:
  assumes "outcome (checkFlux P E f st) = Delivered"
  shows "\<exists>fd latest. isValidUrl P (rssUrl f) \<and> parseRssWithTimeout E (rssUrl f) = Inr fd \<and>
           selectLatest P (feedItems fd) = Some latest \<and>
           sanitizeLink P (Some (getItemLinkOrGuid latest)) \<noteq> [] \<and>
           lastItem (flux_after (checkFlux P E f st)) =
             Some (sanitizeLink P (Some (getItemLinkOrGuid latest))) \<and>
           rssUrl (flux_after (checkFlux P E f st)) = rssUrl f"
proof -
  from assms have v: "isValidUrl P (rssUrl f)"
    by (auto simp: checkFlux_def checkFluxTry_def split: if_splits)
  from assms v obtain fd where p: "parseRssWithTimeout E (rssUrl f) = Inr fd"
    by (cases "parseRssWithTimeout E (rssUrl f)") (auto simp: checkFlux_def checkFluxTry_def)
  from assms v p obtain latest where s: "selectLatest P (feedItems fd) = Some latest"
    by (cases "selectLatest P (feedItems fd)") (auto simp: checkFlux_def checkFluxTry_def)
  from assms show ?thesis
    unfolding checkFlux_def checkFluxTry_latest[OF v p s]
    using v p s
    by (auto simp: Let_def split: if_splits sum.splits option.splits prod.splits)
qed

lemma checkFlux_seen_link:
  assumes "isValidUrl P (rssUrl g)" and "parseRssWithTimeout E (rssUrl g) = Inr fd"
      and "selectLatest P (feedItems fd) = Some latest"
      and "sanitizeLink P (Some (getItemLinkOrGuid latest)) \<noteq> []"
      and "lastItem g = Some (sanitizeLink P (Some (getItemLinkOrGuid latest)))"
  shows "checkFlux P E g st =
           \<lparr>flux_after = g, dstate_after = st, stored = None, outcome = NoNovelty\<rparr>"
  unfolding checkFlux_def checkFluxTry_latest[OF assms(1,2,3)]
  using assms(4,5) by (simp add: Let_def)


lemma demo_refused_send:
  "sendToDiscord demoPlatform (DISCORD_TOKEN refusingEnv) (discord refusingEnv)
       ''9999999999999999'' t (Some ''https://blog.example/b'') cachedState =
       (Inl refusedError, refusedState)"
proof -
  have g: "getChannel (discord refusingEnv) ''9999999999999999'' cachedState =
             (Inl refusedError, refusedState)"
    by (simp add: getChannel_def cachedState_def refusingEnv_def discordFetch_settle settle_def
        refusedReply_def ok_def refusedError_def refusedState_def)
  show ?thesis
    by (simp add: sendToDiscord_def g) (simp add: refusingEnv_def demoEnv_def)
qed

lemma demo_found:
  "findActive [freshFlux] = [(0, freshFlux)]"
  "findActive [freshFlux, newsFlux] = [(0, freshFlux), (1, newsFlux)]"
  "findActive [freshFlux\<lparr>lastItem := Some l\<rparr>] = [(0, freshFlux\<lparr>lastItem := Some l\<rparr>)]"
  by (simp_all add: findActive_def schemaOnly_def freshFlux_def newsFlux_def)

lemma demo_started:
  "toRun now [(0, freshFlux)] = [(0, freshFlux\<lparr>lastCheck := Some now\<rparr>)]"
  "toRun now [(0, freshFlux), (1, newsFlux)] =
     [(0, freshFlux\<lparr>lastCheck := Some now\<rparr>), (1, newsFlux\<lparr>lastCheck := Some now\<rparr>)]"
  "toRun now [(0, freshFlux\<lparr>lastItem := Some l\<rparr>)] =
     [(0, freshFlux\<lparr>lastItem := Some l, lastCheck := Some now\<rparr>)]"
  by (simp_all add: due_def freshFlux_def newsFlux_def)

text \<open>The first check of the runs below, as a tick starts it: stamped with the time.\<close>

lemma demo_stamped_check:
  "checkFlux demoPlatform demoEnv (freshFlux\<lparr>lastCheck := Some now\<rparr>) cachedState =
     \<lparr>flux_after = freshFlux\<lparr>lastItem := Some ''https://blog.example/b'',
                              lastPubDate := Some (Num 1704153600000),
                              lastCheck := Some now\<rparr>,
      dstate_after = deliveredState,
      stored = Some (freshFlux\<lparr>lastItem := Some ''https://blog.example/b''\<rparr>),
      outcome = Delivered\<rparr>"
proof -
  have "checkFlux demoPlatform demoEnv (freshFlux\<lparr>lastCheck := Some now\<rparr>) cachedState =
     \<lparr>flux_after = freshFlux\<lparr>lastCheck := Some now, lastItem := Some ''https://blog.example/b'',
                              lastPubDate := Some (Num 1704153600000)\<rparr>,
      dstate_after = deliveredState,
      stored = Some (schemaOnly (freshFlux\<lparr>lastCheck := Some now,
                       lastItem := Some ''https://blog.example/b'',
                       lastPubDate := Some (Num 1704153600000)\<rparr>)),
      outcome = Delivered\<rparr>"
  proof (rule checkFlux_delivers[where latest = itemB and lnk = "''https://blog.example/b''"
        and fd = "\<lparr>items = Some [itemA, itemB]\<rparr>"])
    show "selectLatest demoPlatform (feedItems \<lparr>items = Some [itemA, itemB]\<rparr>) = Some itemB"
      by (simp add: feedItems_def demo_select del: selectLatest.simps)
    show "sendToDiscord demoPlatform (DISCORD_TOKEN demoEnv) (discord demoEnv)
            (discordTarget (freshFlux\<lparr>lastCheck := Some now\<rparr>)) (title itemB)
            (Some ''https://blog.example/b'') cachedState = (Inr (), deliveredState)"
      using demo_send by (simp add: demoEnv_def freshFlux_def)
  qed (simp_all add: freshFlux_def demo_urls demoEnv_def demo_links demo_dates)
  then show ?thesis by (simp add: schemaOnly_def freshFlux_def)
qed

text \<open>
  Claim C1. One tick over a store of two subscriptions that have never been checked,
  both for a text channel. The feed of the first lists its newest item between an older
  and an undated one; that item has a \<open>link\<close> and a \<open>guid\<close> that is no URL. The feed of
  the second has no dated item, and its first item has no title and no \<open>link\<close>, only a
  \<open>guid\<close> that is a URL. The tick delivers the newest item of the first feed and the
  first item of the second, each by one \<open>POST\<close> of its own text, and the store holds
  their links as \<open>lastItem\<close>. The date of the delivered item, 1704153600000, is put on
  the object in memory and nowhere else: \<open>lastPubDate\<close> is no path of the schema, the
  stored document has none, and neither has the object the next tick is handed.
\<close>

theorem first_check_date_not_stored:
  "cronTick demoPlatform twoFeedsEnv 1704153660000 None [freshFlux, newsFlux] cachedState =
     (None,
      [(0, \<lparr>flux_after = freshFlux\<lparr>lastItem := Some ''https://blog.example/b'',
                                    lastPubDate := Some (Num 1704153600000),
                                    lastCheck := Some 1704153660000\<rparr>,
             dstate_after = deliveredState,
             stored = Some (freshFlux\<lparr>lastItem := Some ''https://blog.example/b''\<rparr>),
             outcome = Delivered\<rparr>),
       (1, \<lparr>flux_after = newsFlux\<lparr>lastItem := Some ''https://blog.example/c'',
                                   lastCheck := Some 1704153660000\<rparr>,
             dstate_after = deliveredState\<lparr>sent := sent deliveredState @
               [\<lparr>rmethod = POST,
                 rurl = ''https://discord.com/api/v10/channels/1234567890123456/messages'',
                 rbody = Some (MessagePayload
                           (''Article'' @ [CHR 0x0A] @ ''https://blog.example/c''))\<rparr>]\<rparr>,
             stored = Some (newsFlux\<lparr>lastItem := Some ''https://blog.example/c''\<rparr>),
             outcome = Delivered\<rparr>)],
      [freshFlux\<lparr>lastItem := Some ''https://blog.example/b''\<rparr>,
       newsFlux\<lparr>lastItem := Some ''https://blog.example/c''\<rparr>],
      deliveredState\<lparr>sent := sent deliveredState @
        [\<lparr>rmethod = POST,
          rurl = ''https://discord.com/api/v10/channels/1234567890123456/messages'',
          rbody = Some (MessagePayload
                    (''Article'' @ [CHR 0x0A] @ ''https://blog.example/c''))\<rparr>]\<rparr>) \<and>
   parseRssWithTimeout twoFeedsEnv (rssUrl freshFlux) =
     Inr \<lparr>items = Some [itemA, itemTagged, itemUndated]\<rparr> \<and>
   selectLatest demoPlatform [itemA, itemTagged, itemUndated] = Some itemTagged \<and>
   getItemDate demoPlatform itemTagged = Num 1704153600000 \<and>
   sent deliveredState =
     [\<lparr>rmethod = POST, rurl = ''https://discord.com/api/v10/channels/1234567890123456/messages'',
       rbody = Some (MessagePayload
                 (''Second post'' @ [CHR 0x0A] @ ''https://blog.example/b''))\<rparr>] \<and>
   parseRssWithTimeout twoFeedsEnv (rssUrl newsFlux) =
     Inr \<lparr>items = Some [itemGuidOnly, itemUndated]\<rparr> \<and>
   selectLatest demoPlatform [itemGuidOnly, itemUndated] = Some itemGuidOnly \<and>
   map lastPubDate [freshFlux\<lparr>lastItem := Some ''https://blog.example/b''\<rparr>,
                    newsFlux\<lparr>lastItem := Some ''https://blog.example/c''\<rparr>] = [None, None] \<and>
   map (lastPubDate \<circ> snd)
     (findActive [freshFlux\<lparr>lastItem := Some ''https://blog.example/b''\<rparr>,
                  newsFlux\<lparr>lastItem := Some ''https://blog.example/c''\<rparr>]) = [None, None]"
proof -
  let ?now = "1704153660000 :: int"
  let ?post = "\<lparr>rmethod = POST,
                 rurl = ''https://discord.com/api/v10/channels/1234567890123456/messages'',
                 rbody = Some (MessagePayload
                           (''Article'' @ [CHR 0x0A] @ ''https://blog.example/c''))\<rparr>"
  let ?st2 = "deliveredState\<lparr>sent := sent deliveredState @ [?post]\<rparr>"
  have e: "DISCORD_TOKEN twoFeedsEnv = Some ''token''" "discord twoFeedsEnv = (\<lambda>n rq. okReply)"
    "save twoFeedsEnv g = None" for g
    by (simp_all add: twoFeedsEnv_def demoEnv_def)
  have p0: "parseRssWithTimeout twoFeedsEnv (rssUrl freshFlux) =
              Inr \<lparr>items = Some [itemA, itemTagged, itemUndated]\<rparr>"
    and p1: "parseRssWithTimeout twoFeedsEnv (rssUrl newsFlux) =
              Inr \<lparr>items = Some [itemGuidOnly, itemUndated]\<rparr>"
    by (simp_all add: twoFeedsEnv_def freshFlux_def newsFlux_def)
  have c0: "checkFlux demoPlatform twoFeedsEnv (freshFlux\<lparr>lastCheck := Some ?now\<rparr>) cachedState =
     \<lparr>flux_after = freshFlux\<lparr>lastItem := Some ''https://blog.example/b'',
                              lastPubDate := Some (Num 1704153600000),
                              lastCheck := Some ?now\<rparr>,
      dstate_after = deliveredState,
      stored = Some (freshFlux\<lparr>lastItem := Some ''https://blog.example/b''\<rparr>),
      outcome = Delivered\<rparr>"
  proof -
    have "checkFlux demoPlatform twoFeedsEnv (freshFlux\<lparr>lastCheck := Some ?now\<rparr>) cachedState =
       \<lparr>flux_after = freshFlux\<lparr>lastCheck := Some ?now, lastItem := Some ''https://blog.example/b'',
                                lastPubDate := Some (Num 1704153600000)\<rparr>,
        dstate_after = deliveredState,
        stored = Some (schemaOnly (freshFlux\<lparr>lastCheck := Some ?now,
                         lastItem := Some ''https://blog.example/b'',
                         lastPubDate := Some (Num 1704153600000)\<rparr>)),
        outcome = Delivered\<rparr>"
    proof (rule checkFlux_delivers[where latest = itemTagged and lnk = "''https://blog.example/b''"
          and fd = "\<lparr>items = Some [itemA, itemTagged, itemUndated]\<rparr>"])
      show "selectLatest demoPlatform (feedItems \<lparr>items = Some [itemA, itemTagged, itemUndated]\<rparr>)
              = Some itemTagged"
        by (simp add: feedItems_def demo_select_middle del: selectLatest.simps)
      show "parseRssWithTimeout twoFeedsEnv (rssUrl (freshFlux\<lparr>lastCheck := Some ?now\<rparr>)) =
              Inr \<lparr>items = Some [itemA, itemTagged, itemUndated]\<rparr>"
        using p0 by simp
      show "sendToDiscord demoPlatform (DISCORD_TOKEN twoFeedsEnv) (discord twoFeedsEnv)
              (discordTarget (freshFlux\<lparr>lastCheck := Some ?now\<rparr>)) (title itemTagged)
              (Some ''https://blog.example/b'') cachedState = (Inr (), deliveredState)"
        by (simp add: e freshFlux_def send_to_text_channel cachedState_def itemTagged_def
            demo_messages deliveredState_def)
    qed (simp_all add: freshFlux_def demo_urls e demo_links demo_dates)
    then show ?thesis by (simp add: schemaOnly_def freshFlux_def)
  qed
  have c1: "checkFlux demoPlatform twoFeedsEnv (newsFlux\<lparr>lastCheck := Some ?now\<rparr>) deliveredState =
     \<lparr>flux_after = newsFlux\<lparr>lastItem := Some ''https://blog.example/c'', lastCheck := Some ?now\<rparr>,
      dstate_after = ?st2,
      stored = Some (newsFlux\<lparr>lastItem := Some ''https://blog.example/c''\<rparr>),
      outcome = Delivered\<rparr>"
  proof -
    have "checkFlux demoPlatform twoFeedsEnv (newsFlux\<lparr>lastCheck := Some ?now\<rparr>) deliveredState =
       \<lparr>flux_after = newsFlux\<lparr>lastCheck := Some ?now, lastItem := Some ''https://blog.example/c''\<rparr>,
        dstate_after = ?st2,
        stored = Some (schemaOnly (newsFlux\<lparr>lastCheck := Some ?now,
                         lastItem := Some ''https://blog.example/c''\<rparr>)),
        outcome = Delivered\<rparr>"
    proof (rule checkFlux_delivers[where latest = itemGuidOnly and lnk = "''https://blog.example/c''"
          and fd = "\<lparr>items = Some [itemGuidOnly, itemUndated]\<rparr>"])
      show "selectLatest demoPlatform (feedItems \<lparr>items = Some [itemGuidOnly, itemUndated]\<rparr>)
              = Some itemGuidOnly"
        by (simp add: feedItems_def demo_select_undated del: selectLatest.simps)
      show "parseRssWithTimeout twoFeedsEnv (rssUrl (newsFlux\<lparr>lastCheck := Some ?now\<rparr>)) =
              Inr \<lparr>items = Some [itemGuidOnly, itemUndated]\<rparr>"
        using p1 by simp
      show "sendToDiscord demoPlatform (DISCORD_TOKEN twoFeedsEnv) (discord twoFeedsEnv)
              (discordTarget (newsFlux\<lparr>lastCheck := Some ?now\<rparr>)) (title itemGuidOnly)
              (Some ''https://blog.example/c'') deliveredState = (Inr (), ?st2)"
        by (simp add: e newsFlux_def freshFlux_def send_to_text_channel cachedState_def
            itemGuidOnly_def demo_messages deliveredState_def)
    qed (simp_all add: newsFlux_def freshFlux_def demo_urls e demo_links demo_dates)
    then show ?thesis by (simp add: schemaOnly_def newsFlux_def freshFlux_def)
  qed
  have t: "cronTick demoPlatform twoFeedsEnv ?now None [freshFlux, newsFlux] cachedState =
     (None,
      [(0, \<lparr>flux_after = freshFlux\<lparr>lastItem := Some ''https://blog.example/b'',
                                    lastPubDate := Some (Num 1704153600000),
                                    lastCheck := Some ?now\<rparr>,
             dstate_after = deliveredState,
             stored = Some (freshFlux\<lparr>lastItem := Some ''https://blog.example/b''\<rparr>),
             outcome = Delivered\<rparr>),
       (1, \<lparr>flux_after = newsFlux\<lparr>lastItem := Some ''https://blog.example/c'',
                                   lastCheck := Some ?now\<rparr>,
             dstate_after = ?st2,
             stored = Some (newsFlux\<lparr>lastItem := Some ''https://blog.example/c''\<rparr>),
             outcome = Delivered\<rparr>)],
      [freshFlux\<lparr>lastItem := Some ''https://blog.example/b''\<rparr>,
       newsFlux\<lparr>lastItem := Some ''https://blog.example/c''\<rparr>],
      ?st2)"
    unfolding cronTick_def demo_found demo_started by (simp add: c0 c1)
  have s: "sent deliveredState =
     [\<lparr>rmethod = POST, rurl = ''https://discord.com/api/v10/channels/1234567890123456/messages'',
       rbody = Some (MessagePayload
                 (''Second post'' @ [CHR 0x0A] @ ''https://blog.example/b''))\<rparr>]"
    by (simp add: deliveredState_def)
  have n: "map lastPubDate [freshFlux\<lparr>lastItem := Some ''https://blog.example/b''\<rparr>,
                    newsFlux\<lparr>lastItem := Some ''https://blog.example/c''\<rparr>] = [None, None]"
    "map (lastPubDate \<circ> snd)
     (findActive [freshFlux\<lparr>lastItem := Some ''https://blog.example/b''\<rparr>,
                  newsFlux\<lparr>lastItem := Some ''https://blog.example/c''\<rparr>]) = [None, None]"
    by (simp_all add: findActive_def schemaOnly_def freshFlux_def newsFlux_def)
  from t p0 p1 demo_select_middle demo_select_undated demo_dates(3) s n show ?thesis
    by (simp only: simp_thms)
qed



text \<open>
  The same holds of the object the next tick is handed, made of the stored document: its
  \<open>lastItem\<close> is the delivered link.
\<close>

lemma recheck_reread_no_second_delivery:
  assumes "outcome (checkFlux P E f st) = Delivered"
      and "parseRssWithTimeout E' (rssUrl f) = parseRssWithTimeout E (rssUrl f)"
  shows "checkFlux P E' (schemaOnly (flux_after (checkFlux P E f st))) st' =
           \<lparr>flux_after = schemaOnly (flux_after (checkFlux P E f st)), dstate_after = st',
            stored = None, outcome = NoNovelty\<rparr>"
proof -
  let ?g = "schemaOnly (flux_after (checkFlux P E f st))"
  from checkFlux_Delivered[OF assms(1)] obtain fd latest where
    v: "isValidUrl P (rssUrl f)" and p: "parseRssWithTimeout E (rssUrl f) = Inr fd" and
    s: "selectLatest P (feedItems fd) = Some latest" and
    l: "sanitizeLink P (Some (getItemLinkOrGuid latest)) \<noteq> []" and
    li: "lastItem ?g = Some (sanitizeLink P (Some (getItemLinkOrGuid latest)))" and
    u: "rssUrl ?g = rssUrl f"
    by (auto simp: schemaOnly_def)
  from v u have v': "isValidUrl P (rssUrl ?g)" by simp
  from p u assms(2) have p': "parseRssWithTimeout E' (rssUrl ?g) = Inr fd" by simp
  from v' p' s l li show ?thesis by (rule checkFlux_seen_link)
qed

text \<open>
  Claim C3. Two ticks, one minute apart, over a store of one subscription that has never
  been checked. At the first the feed lists the items of 2024-01-01 and 2024-01-02; the
  newer one is delivered, and its date, 1704153600000, is put on the object in memory.
  At the second the feed lists the item of 2024-01-01 only: another link, and a date that
  is not newer than the one the first check took. The claim has no delivery there. The
  date was never stored (\<open>lastPubDate\<close> is no path of the schema), the object the
  second tick is handed has none, the date gate of \<open>checkFlux\<close> is not reached, and the
  older item is delivered.
\<close>

theorem older_item_delivered_on_next_tick:
  "cronTick demoPlatform demoEnv 1704153660000 None [freshFlux] cachedState =
     (None,
      [(0, \<lparr>flux_after = freshFlux\<lparr>lastItem := Some ''https://blog.example/b'',
                                    lastPubDate := Some (Num 1704153600000),
                                    lastCheck := Some 1704153660000\<rparr>,
             dstate_after = deliveredState,
             stored = Some (freshFlux\<lparr>lastItem := Some ''https://blog.example/b''\<rparr>),
             outcome = Delivered\<rparr>)],
      [freshFlux\<lparr>lastItem := Some ''https://blog.example/b''\<rparr>],
      deliveredState) \<and>
   parseRssWithTimeout olderEnv ''https://blog.example/feed.xml'' = Inr \<lparr>items = Some [itemA]\<rparr> \<and>
   getItemLinkOrGuid itemA = ''https://blog.example/a'' \<and>
   getItemDate demoPlatform itemA = Num 1704067200000 \<and>
   js_ge (Num 1704153600000) (getItemDate demoPlatform itemA) \<and>
   cronTick demoPlatform olderEnv 1704153720000 None
       [freshFlux\<lparr>lastItem := Some ''https://blog.example/b''\<rparr>] deliveredState =
     (None,
      [(0, \<lparr>flux_after = freshFlux\<lparr>lastItem := Some ''https://blog.example/a'',
                                    lastPubDate := Some (Num 1704067200000),
                                    lastCheck := Some 1704153720000\<rparr>,
             dstate_after = deliveredState\<lparr>sent := sent deliveredState @
               [\<lparr>rmethod = POST,
                 rurl = ''https://discord.com/api/v10/channels/1234567890123456/messages'',
                 rbody = Some (MessagePayload
                           (''First post'' @ [CHR 0x0A] @ ''https://blog.example/a''))\<rparr>]\<rparr>,
             stored = Some (freshFlux\<lparr>lastItem := Some ''https://blog.example/a''\<rparr>),
             outcome = Delivered\<rparr>)],
      [freshFlux\<lparr>lastItem := Some ''https://blog.example/a''\<rparr>],
      deliveredState\<lparr>sent := sent deliveredState @
        [\<lparr>rmethod = POST,
          rurl = ''https://discord.com/api/v10/channels/1234567890123456/messages'',
          rbody = Some (MessagePayload
                    (''First post'' @ [CHR 0x0A] @ ''https://blog.example/a''))\<rparr>]\<rparr>)"
proof -
  let ?post = "\<lparr>rmethod = POST,
                 rurl = ''https://discord.com/api/v10/channels/1234567890123456/messages'',
                 rbody = Some (MessagePayload
                           (''First post'' @ [CHR 0x0A] @ ''https://blog.example/a''))\<rparr>"
  let ?st2 = "deliveredState\<lparr>sent := sent deliveredState @ [?post]\<rparr>"
  let ?g = "freshFlux\<lparr>lastItem := Some ''https://blog.example/b'', lastCheck := Some 1704153720000\<rparr>"
  have c1: "checkFlux demoPlatform demoEnv (freshFlux\<lparr>lastCheck := Some 1704153660000\<rparr>)
              cachedState =
     \<lparr>flux_after = freshFlux\<lparr>lastItem := Some ''https://blog.example/b'',
                              lastPubDate := Some (Num 1704153600000),
                              lastCheck := Some 1704153660000\<rparr>,
      dstate_after = deliveredState,
      stored = Some (freshFlux\<lparr>lastItem := Some ''https://blog.example/b''\<rparr>),
      outcome = Delivered\<rparr>"
    by (simp add: demo_stamped_check)
  have e: "DISCORD_TOKEN olderEnv = Some ''token''" "discord olderEnv = (\<lambda>n rq. okReply)"
    "save olderEnv g = None" "parseRssWithTimeout olderEnv u = Inr \<lparr>items = Some [itemA]\<rparr>"
    for g u
    by (simp_all add: olderEnv_def demoEnv_def)
  have c2: "checkFlux demoPlatform olderEnv ?g deliveredState =
     \<lparr>flux_after = freshFlux\<lparr>lastItem := Some ''https://blog.example/a'',
                              lastPubDate := Some (Num 1704067200000),
                              lastCheck := Some 1704153720000\<rparr>,
      dstate_after = ?st2,
      stored = Some (freshFlux\<lparr>lastItem := Some ''https://blog.example/a''\<rparr>),
      outcome = Delivered\<rparr>"
  proof -
    have "checkFlux demoPlatform olderEnv ?g deliveredState =
       \<lparr>flux_after = ?g\<lparr>lastItem := Some ''https://blog.example/a'',
                         lastPubDate := Some (Num 1704067200000)\<rparr>,
        dstate_after = ?st2,
        stored = Some (schemaOnly (?g\<lparr>lastItem := Some ''https://blog.example/a'',
                         lastPubDate := Some (Num 1704067200000)\<rparr>)),
        outcome = Delivered\<rparr>"
    proof (rule checkFlux_delivers[where latest = itemA and lnk = "''https://blog.example/a''"
          and fd = "\<lparr>items = Some [itemA]\<rparr>"])
      show "selectLatest demoPlatform (feedItems \<lparr>items = Some [itemA]\<rparr>) = Some itemA"
        by (simp add: feedItems_def selectLatest_single del: selectLatest.simps)
      show "sendToDiscord demoPlatform (DISCORD_TOKEN olderEnv) (discord olderEnv)
              (discordTarget ?g) (title itemA) (Some ''https://blog.example/a'') deliveredState =
            (Inr (), ?st2)"
        by (simp add: e freshFlux_def send_to_text_channel cachedState_def itemA_def
            demo_messages deliveredState_def)
    qed (simp_all add: freshFlux_def demo_urls e demo_links demo_dates)
    then show ?thesis by (simp add: schemaOnly_def freshFlux_def)
  qed
  have t1: "cronTick demoPlatform demoEnv 1704153660000 None [freshFlux] cachedState =
     (None,
      [(0, \<lparr>flux_after = freshFlux\<lparr>lastItem := Some ''https://blog.example/b'',
                                    lastPubDate := Some (Num 1704153600000),
                                    lastCheck := Some 1704153660000\<rparr>,
             dstate_after = deliveredState,
             stored = Some (freshFlux\<lparr>lastItem := Some ''https://blog.example/b''\<rparr>),
             outcome = Delivered\<rparr>)],
      [freshFlux\<lparr>lastItem := Some ''https://blog.example/b''\<rparr>],
      deliveredState)"
    unfolding cronTick_def demo_found demo_started by (simp add: c1)
  have t2: "cronTick demoPlatform olderEnv 1704153720000 None
       [freshFlux\<lparr>lastItem := Some ''https://blog.example/b''\<rparr>] deliveredState =
     (None,
      [(0, \<lparr>flux_after = freshFlux\<lparr>lastItem := Some ''https://blog.example/a'',
                                    lastPubDate := Some (Num 1704067200000),
                                    lastCheck := Some 1704153720000\<rparr>,
             dstate_after = ?st2,
             stored = Some (freshFlux\<lparr>lastItem := Some ''https://blog.example/a''\<rparr>),
             outcome = Delivered\<rparr>)],
      [freshFlux\<lparr>lastItem := Some ''https://blog.example/a''\<rparr>],
      ?st2)"
    unfolding cronTick_def demo_found demo_started by (simp add: c2)
  have a: "getItemLinkOrGuid itemA = ''https://blog.example/a''"
    by (simp add: getItemLinkOrGuid_def itemA_def)
  have d: "js_ge (Num 1704153600000) (getItemDate demoPlatform itemA)"
    by (simp add: demo_dates)
  from t1 t2 e(4) a d demo_dates(1) show ?thesis by (simp only: simp_thms)
qed

text \<open>
  Claim C4. When the candidate link of the selected latest item (its \<open>link\<close>, else its
  \<open>guid\<close>) is empty once trimmed or is not a valid URL, the check sends nothing, writes
  nothing and leaves the subscription unchanged, whatever \<open>lastItem\<close> and
  \<open>lastPubDate\<close> are.
\<close>

theorem invalid_link_never_delivered:
  assumes "parseRssWithTimeout E (rssUrl f) = Inr fd"
      and "selectLatest P (feedItems fd) = Some latest"
      and "trim (getItemLinkOrGuid latest) = [] \<or> \<not> isValidUrl P (trim (getItemLinkOrGuid latest))"
  shows "flux_after (checkFlux P E f st) = f \<and> dstate_after (checkFlux P E f st) = st \<and>
         stored (checkFlux P E f st) = None \<and>
         (outcome (checkFlux P E f st) = NoLink \<or> outcome (checkFlux P E f st) = InvalidUrl)"
proof (cases "isValidUrl P (rssUrl f)")
  case False
  then show ?thesis by (simp add: checkFlux_def checkFluxTry_invalid)
next
  case True
  from assms(3) have "sanitizeLink P (Some (getItemLinkOrGuid latest)) = []"
    by (simp add: sanitizeLink_empty_iff)
  then show ?thesis
    by (simp add: checkFlux_def checkFluxTry_latest[OF True assms(1,2)])
qed

theorem invalid_link_never_delivered_witness:
  "parseRssWithTimeout badLinkEnv (rssUrl freshFlux) = Inr \<lparr>items = Some [itemBadLink]\<rparr> \<and>
   selectLatest demoPlatform (feedItems \<lparr>items = Some [itemBadLink]\<rparr>) = Some itemBadLink \<and>
   \<not> isValidUrl demoPlatform (trim (getItemLinkOrGuid itemBadLink)) \<and>
   flux_after (checkFlux demoPlatform badLinkEnv freshFlux emptyState) = freshFlux \<and>
   dstate_after (checkFlux demoPlatform badLinkEnv freshFlux emptyState) = emptyState \<and>
   stored (checkFlux demoPlatform badLinkEnv freshFlux emptyState) = None"
proof -
  have h1: "parseRssWithTimeout badLinkEnv (rssUrl freshFlux) = Inr \<lparr>items = Some [itemBadLink]\<rparr>"
    by (simp add: badLinkEnv_def)
  have h2: "selectLatest demoPlatform (feedItems \<lparr>items = Some [itemBadLink]\<rparr>) = Some itemBadLink"
    by (simp add: feedItems_def selectLatest_single del: selectLatest.simps)
  have t: "trim ''not a url'' = ''not a url''" by (simp add: trim_def isSpace_def)
  have h3: "\<not> isValidUrl demoPlatform (trim (getItemLinkOrGuid itemBadLink))"
    by (simp add: getItemLinkOrGuid_def itemBadLink_def t isValidUrl_def demoPlatform_def)
  from invalid_link_never_delivered[OF h1 h2 disjI2[OF h3], of emptyState] h1 h2 h3
  show ?thesis by simp
qed

section \<open>Errors inside a check\<close>

lemma checkFlux_rssUrl: "rssUrl (flux_after (checkFlux P E f st)) = rssUrl f"
  by (auto simp: checkFlux_def checkFluxTry_def Let_def
      split: if_splits sum.splits option.splits prod.splits)

lemma checkFluxTry_error:
  assumes "checkFluxTry P E f st = (Inl e, f', st', w)"
  shows "w = None \<and> ((\<forall>m. e \<noteq> SaveError m) \<longrightarrow> f' = f)"
  using assms
  by (auto simp: checkFluxTry_def Let_def
      split: if_splits sum.splits option.splits prod.splits)

lemma checkFluxTry_not_Caught: "checkFluxTry P E f st \<noteq> (Inr (Caught e), f', st', w)"
  by (auto simp: checkFluxTry_def Let_def
      split: if_splits sum.splits option.splits prod.splits)

text \<open>A check that ended in the \<open>catch\<close> block ended there on an error of its \<open>try\<close> block.\<close>

lemma checkFlux_Caught:
  assumes "outcome (checkFlux P E f st) = Caught e"
  shows "stored (checkFlux P E f st) = None \<and>
         ((\<forall>m. e \<noteq> SaveError m) \<longrightarrow> flux_after (checkFlux P E f st) = f)"
proof -
  obtain r f' st' w where t: "checkFluxTry P E f st = (r, f', st', w)"
    by (cases "checkFluxTry P E f st")
  show ?thesis
  proof (cases r)
    case (Inl e')
    with assms t have "e' = e" by (simp add: checkFlux_def)
    with checkFluxTry_error[of P E f st e f' st' w] t Inl show ?thesis
      by (simp add: checkFlux_def)
  next
    case (Inr oc)
    with assms t have "oc = Caught e" by (simp add: checkFlux_def)
    with t Inr checkFluxTry_not_Caught[of P E f st e f' st' w] show ?thesis by simp
  qed
qed

lemma checkFlux_feed_error:
  assumes "isValidUrl P (rssUrl f)" and "parseRssWithTimeout E (rssUrl f) = Inl e"
  shows "checkFlux P E f st =
           \<lparr>flux_after = f, dstate_after = st, stored = None, outcome = Caught e\<rparr>"
  using assms by (simp add: checkFlux_def checkFluxTry_def)

lemma checkFlux_send_error:
  assumes "isValidUrl P (rssUrl f)"
      and "parseRssWithTimeout E (rssUrl f) = Inr fd"
      and "selectLatest P (feedItems fd) = Some latest"
      and "sanitizeLink P (Some (getItemLinkOrGuid latest)) = lnk" and "lnk \<noteq> []"
      and "lastItem f \<noteq> Some lnk" and "\<not> dateGate (lastPubDate f) (getItemDate P latest)"
      and "sendToDiscord P (DISCORD_TOKEN E) (discord E) (discordTarget f) (title latest)
             (Some lnk) st = (Inl e, st1)"
  shows "checkFlux P E f st =
           \<lparr>flux_after = f, dstate_after = st1, stored = None, outcome = Caught e\<rparr>"
  unfolding checkFlux_def checkFluxTry_latest[OF assms(1,2,3)]
  using assms(4-) by (simp add: Let_def)

lemma sendToDiscord_unsupported:
  assumes "orElse tok [] \<noteq> []" and "getChannel srv cid st = (Inr ch, st1)"
      and "ch_type ch \<noteq> Some 15" and "ch_type ch \<noteq> Some 0"
  shows "sendToDiscord P tok srv cid t l st = (Inl (UnsupportedChannelType (ch_type ch)), st1)"
  using assms by (simp add: sendToDiscord_def Let_def)

text \<open>
  The checks of a tick: as many results as checks started, the \<open>k\<close>-th being the result
  of the \<open>k\<close>-th check, run in the gateway state the checks before it left.
\<close>

lemma runAll_Cons:
  "runAll P E ((i, f) # fs) st =
     ((i, checkFlux P E f st) # fst (runAll P E fs (dstate_after (checkFlux P E f st))),
      snd (runAll P E fs (dstate_after (checkFlux P E f st))))"
  by (simp add: Let_def split: prod.splits)

declare runAll.simps(2) [simp del]

lemma runAll_length: "length (fst (runAll P E fs st)) = length fs"
proof (induction fs arbitrary: st)
  case Nil
  show ?case by simp
next
  case (Cons a fs)
  obtain i f where a: "a = (i, f)" by (cases a)
  from Cons.IH[of "dstate_after (checkFlux P E f st)"] show ?case
    by (simp add: a runAll_Cons)
qed

lemma runAll_nth:
  "k < length fs \<Longrightarrow>
   fst (runAll P E fs st) ! k =
     (fst (fs ! k), checkFlux P E (snd (fs ! k)) (snd (runAll P E (take k fs) st)))"
proof (induction fs arbitrary: st k)
  case Nil
  then show ?case by simp
next
  case (Cons a fs)
  obtain i f where a: "a = (i, f)" by (cases a)
  let ?s = "dstate_after (checkFlux P E f st)"
  have r: "fst (runAll P E (a # fs) st) = (i, checkFlux P E f st) # fst (runAll P E fs ?s)"
    by (simp add: a runAll_Cons)
  show ?case
  proof (cases k)
    case 0
    then show ?thesis by (simp add: a runAll_Cons)
  next
    case (Suc j)
    with Cons.prems have j: "j < length fs" by simp
    have "snd (runAll P E (take k (a # fs)) st) = snd (runAll P E (take j fs) ?s)"
      by (simp add: Suc a runAll_Cons)
    with Cons.IH[OF j, of ?s] show ?thesis by (simp add: a runAll_Cons Suc)
  qed
qed

lemma runAll_indexes: "map fst (fst (runAll P E fs st)) = map fst fs"
proof (induction fs arbitrary: st)
  case Nil
  show ?case by simp
next
  case (Cons a fs)
  obtain i f where a: "a = (i, f)" by (cases a)
  from Cons.IH[of "dstate_after (checkFlux P E f st)"] show ?case
    by (simp add: a runAll_Cons)
qed

lemma toRun_indexes: "map fst (toRun now fs) = map fst (filter (\<lambda>(i, f). due now f) fs)"
  by (induction fs) auto

lemma findActive_indexes: "distinct (map fst (findActive db))"
proof -
  have "map fst (findActive db) = map fst (filter (\<lambda>(i, d). active d) (enumerate 0 db))"
    by (simp add: findActive_def comp_def case_prod_beta)
  moreover have "distinct (map fst (enumerate 0 db))" by (simp add: map_fst_enumerate)
  ultimately show ?thesis by (simp add: distinct_map_filter)
qed

lemma started_indexes: "distinct (map fst (toRun now (findActive db)))"
  by (simp add: toRun_indexes distinct_map_filter findActive_indexes)

text \<open>A document is as it was when no check of it wrote one.\<close>

lemma writeBack_untouched:
  "(\<And>j r. (j, r) \<in> set rs \<Longrightarrow> j = i \<Longrightarrow> stored r = None) \<Longrightarrow> writeBack rs db ! i = db ! i"
proof (induction rs arbitrary: db)
  case Nil
  show ?case by simp
next
  case (Cons a rs)
  obtain j r where a: "a = (j, r)" by (cases a)
  have "writeBack rs (case stored r of Some w \<Rightarrow> db[j := w] | None \<Rightarrow> db) ! i =
          (case stored r of Some w \<Rightarrow> db[j := w] | None \<Rightarrow> db) ! i"
    by (rule Cons.IH) (rule Cons.prems, simp_all)
  moreover have "(case stored r of Some w \<Rightarrow> db[j := w] | None \<Rightarrow> db) ! i = db ! i"
  proof (cases "stored r")
    case None
    then show ?thesis by simp
  next
    case (Some w)
    with Cons.prems[of j r] a have "j \<noteq> i" by auto
    with Some show ?thesis by simp
  qed
  ultimately show ?case by (simp add: a)
qed

lemma tick_keeps_failed:
  assumes "cronTick P E now None db st = (err, rs, db', st')"
      and "k < length rs" and "outcome (snd (rs ! k)) = Caught e"
  shows "db' ! fst (rs ! k) = db ! fst (rs ! k)"
proof -
  let ?fs = "toRun now (findActive db)"
  from assms(1) have rs: "rs = fst (runAll P E ?fs st)" and db': "db' = writeBack rs db"
    by (auto simp: cronTick_def split: prod.splits)
  from rs have len: "length rs = length ?fs" by (simp add: runAll_length)
  from rs have d: "distinct (map fst rs)" by (simp add: runAll_indexes started_indexes)
  have c: "snd (rs ! k) = checkFlux P E (snd (?fs ! k)) (snd (runAll P E (take k ?fs) st))"
    using assms(2) len by (simp add: rs runAll_nth)
  from assms(3) have n: "stored (snd (rs ! k)) = None"
    unfolding c by (simp add: checkFlux_Caught)
  have "writeBack rs db ! fst (rs ! k) = db ! fst (rs ! k)"
  proof (rule writeBack_untouched)
    fix j r assume m: "(j, r) \<in> set rs" and j: "j = fst (rs ! k)"
    from m obtain l where l: "l < length rs" "rs ! l = (j, r)" by (auto simp: in_set_conv_nth)
    with j assms(2) d have "l = k"
      by (metis distinct_conv_nth fst_conv length_map nth_map)
    with l n show "stored r = None" by simp
  qed
  with db' show ?thesis by simp
qed

end
